theory Spec2Isabelle
  imports Main
begin

section \<open>Strings, configuration constants and time\<close>

text \<open>
  The Go types \<^verbatim>\<open>Mod\<close>, \<^verbatim>\<open>Type\<close> and \<^verbatim>\<open>Path\<close> of \<^verbatim>\<open>logger.go\<close> are all
  \<^verbatim>\<open>string\<close>; they are modelled as HOL strings.
\<close>

type_synonym Mod = string
type_synonym Type = string
type_synonym Path = string

definition ModProd :: Mod where "ModProd = ''prod''"
definition ModDev :: Mod where "ModDev = ''dev''"
definition TypeService :: Type where "TypeService = ''service''"
definition TypeRequest :: Type where "TypeRequest = ''request''"
definition DefaultMod :: Mod where "DefaultMod = ModDev"
definition DefaultType :: Type where "DefaultType = TypeService"
definition DefaultServicePath :: Path where "DefaultServicePath = ''./logs/service_logs/''"
definition DefaultRequestPath :: Path where "DefaultRequestPath = ''./logs/request_logs/''"

text \<open>\<^verbatim>\<open>func (m Mod) Empty() bool { return m == "" }\<close>, and likewise for the other two.\<close>

definition Empty :: "string \<Rightarrow> bool" where
  "Empty s = (s = [])"

text \<open>
  A reading of the wall clock in local time, as \<^verbatim>\<open>time.Now()\<close> returns it. Only the
  civil date and time of day are kept.
\<close>

record time =
  year :: int
  month :: nat
  day :: nat
  hour :: nat
  minute :: nat
  second :: nat

text \<open>
  \<^verbatim>\<open>time.Time.Format(time.DateOnly)\<close>, layout \<^verbatim>\<open>"2006-01-02"\<close>, of the Go standard
  library: the year is padded with zeros to at least four digits (with a leading minus
  sign when negative), month and day to two.
\<close>

fun decimal :: "nat \<Rightarrow> string" where
  "decimal n =
     (if n < 10 then [''0123456789'' ! n]
      else decimal (n div 10) @ [''0123456789'' ! (n mod 10)])"

declare decimal.simps [simp del]

definition appendInt :: "int \<Rightarrow> nat \<Rightarrow> string" where
  "appendInt x width =
     (let u = nat \<bar>x\<bar>; ds = decimal u
      in (if x < 0 then ''-'' else '''') @ replicate (width - length ds) CHR ''0'' @ ds)"

definition DateOnly :: "time \<Rightarrow> string" where
  "DateOnly t =
     appendInt (year t) 4 @ ''-'' @ appendInt (int (month t)) 2 @ ''-'' @ appendInt (int (day t)) 2"

section \<open>Files, writers, handlers\<close>

text \<open>
  An open file as \<^verbatim>\<open>os.OpenFile\<close> returns it: the name it was opened under, its
  descriptor, and the flags and permission bits of the call.
\<close>

record os_File =
  fname :: string
  fd :: nat
  append_flag :: bool
  create_flag :: bool
  wronly_flag :: bool
  perm :: nat

datatype writer = Stdout | Stderr | FileWriter os_File | MultiWriter "writer list"

text \<open>\<^verbatim>\<open>slog.LevelDebug\<close> is the constant -4.\<close>

definition LevelDebug :: int where "LevelDebug = -4"

text \<open>
  The two handlers the package builds: \<^verbatim>\<open>slog.NewJSONHandler(w, &slog.HandlerOptions{AddSource, Level})\<close>
  and \<^verbatim>\<open>tint.NewHandler(w, &tint.Options{Level, TimeFormat, AddSource})\<close>.
\<close>

datatype handler =
    JSONHandler writer bool int
  | TintHandler writer int string bool

text \<open>\<^verbatim>\<open>slog.New(handler)\<close>.\<close>

datatype slog_Logger = slog_New handler

section \<open>The Logger struct and the process state\<close>

text \<open>
  \<^verbatim>\<open>type Logger struct\<close>. The embedded \<^verbatim>\<open>*slog.Logger\<close> is a pointer that is nil
  until \<^verbatim>\<open>setLogger\<close> runs, and \<^verbatim>\<open>logFile\<close> is a pointer too. The embedded
  mutex carries no data of the logger; its state is part of the running system, in
  \<open>config\<close> below.
\<close>

record Logger =
  slogLogger :: "slog_Logger option"
  logFile :: "os_File option"
  logsDict :: Path
  modL :: Mod
  LoggerType :: Type
  today :: time

text \<open>
  Everything the package reads or changes outside its arguments: the clock (the
  \<open>n\<close>-th call of \<^verbatim>\<open>time.Now()\<close> returns \<open>clock n\<close>), the environment, the file
  system (which directory creations and which opens fail, with what error; the directories
  created and the files opened so far, none of which is ever closed by this package), the
  heap of \<^verbatim>\<open>Logger\<close> objects (a \<^verbatim>\<open>*Logger\<close> is an index into it), the package
  variable \<^verbatim>\<open>instance\<close>, the default logger installed by \<^verbatim>\<open>slog.SetDefault\<close>
  (\<open>None\<close>: the one \<^verbatim>\<open>log/slog\<close> starts with), and the loggers for which a rotation
  goroutine has been started.
\<close>

record world =
  clock :: "nat \<Rightarrow> time"
  ticks :: nat
  getenv :: "string \<Rightarrow> string"
  mkdir_err :: "string \<Rightarrow> string option"
  open_err :: "string \<Rightarrow> string option"
  dirs :: "string list"
  open_files :: "os_File list"
  heap :: "Logger list"
  instance_var :: "nat option"
  slog_default :: "slog_Logger option"
  watchers :: "nat list"

text \<open>A panic ends the run; it carries the error value it was raised with.\<close>

datatype panic = Panic string

definition time_Now :: "world \<Rightarrow> time \<times> world" where
  "time_Now w = (clock w (ticks w), w\<lparr>ticks := ticks w + 1\<rparr>)"

text \<open>\<^verbatim>\<open>func Get() *Logger { return instance }\<close>\<close>

definition Get :: "world \<Rightarrow> nat option" where
  "Get w = instance_var w"

text \<open>\<^verbatim>\<open>build\<close> allocates a new \<^verbatim>\<open>Logger\<close> and returns the pointer to it.\<close>

definition build :: "Path \<Rightarrow> Mod \<Rightarrow> Type \<Rightarrow> world \<Rightarrow> nat \<times> world" where
  "build ld m lType w =
     (let (t, w1) = time_Now w
      in (length (heap w1),
          w1\<lparr>heap := heap w1 @
                [\<lparr>slogLogger = None, logFile = None, logsDict = ld, modL = m,
                  LoggerType = lType, today = t\<rparr>]\<rparr>))"

text \<open>\<^verbatim>\<open>setLogger\<close>: under the write lock, \<^verbatim>\<open>ll.Logger = logger\<close>.\<close>

definition setLogger :: "nat \<Rightarrow> slog_Logger \<Rightarrow> world \<Rightarrow> world" where
  "setLogger ll lg w = w\<lparr>heap := (heap w)[ll := (heap w ! ll)\<lparr>slogLogger := Some lg\<rparr>]\<rparr>"

text \<open>
  \<^verbatim>\<open>os.MkdirAll(path, os.ModePerm)\<close> returns an error or records the directory;
  \<^verbatim>\<open>os.OpenFile(name, O_APPEND|O_CREATE|O_WRONLY, 0644)\<close> returns an error or a new
  open file (0644 is 420).
\<close>

definition os_MkdirAll :: "string \<Rightarrow> world \<Rightarrow> string option \<times> world" where
  "os_MkdirAll path w =
     (case mkdir_err w path of
        Some e \<Rightarrow> (Some e, w)
      | None \<Rightarrow> (None, w\<lparr>dirs := dirs w @ [path]\<rparr>))"

abbreviation log_file :: "string \<Rightarrow> nat \<Rightarrow> os_File" where
  "log_file name n \<equiv>
     \<lparr>fname = name, fd = n, append_flag = True, create_flag = True, wronly_flag = True,
      perm = 420\<rparr>"

definition os_OpenFile :: "string \<Rightarrow> world \<Rightarrow> (string + os_File) \<times> world" where
  "os_OpenFile name w =
     (case open_err w name of
        Some e \<Rightarrow> (Inl e, w)
      | None \<Rightarrow>
          (let f = log_file name (length (open_files w))
           in (Inr f, w\<lparr>open_files := open_files w @ [f]\<rparr>)))"

text \<open>
  \<^verbatim>\<open>openLogFile\<close>: the name is the path followed directly by the formatted date and
  \<^verbatim>\<open>.txt\<close> (\<^verbatim>\<open>path.String() + fmt.Sprintf("%s.txt", ...)\<close>); then the directory is
  made, then the file opened.
\<close>

definition openLogFile :: "Path \<Rightarrow> world \<Rightarrow> (string + os_File) \<times> world" where
  "openLogFile path w =
     (let (t, w1) = time_Now w;
          p = path @ (DateOnly t @ ''.txt'');
          (err, w2) = os_MkdirAll path w1
      in case err of
           Some e \<Rightarrow> (Inl e, w2)
         | None \<Rightarrow> os_OpenFile p w2)"

text \<open>
  \<^verbatim>\<open>openLogFile\<close> for the path \<open>p\<close>, taking the date from the clock reading \<open>t\<close>,
  fails with the error \<open>e\<close>: the directory cannot be made, or it can and the file cannot
  be opened.
\<close>

abbreviation open_fails :: "Path \<Rightarrow> time \<Rightarrow> world \<Rightarrow> string \<Rightarrow> bool" where
  "open_fails p t w e \<equiv>
     mkdir_err w p = Some e \<or>
     (mkdir_err w p = None \<and> open_err w (p @ DateOnly t @ ''.txt'') = Some e)"

text \<open>
  \<^verbatim>\<open>prodHandler\<close>: a JSON handler on \<^verbatim>\<open>io.MultiWriter(os.Stdout, file)\<close> with
  \<^verbatim>\<open>AddSource: true\<close> and \<^verbatim>\<open>Level: slog.LevelDebug\<close>; it panics when the file
  cannot be opened.
\<close>

abbreviation json_handler :: "os_File \<Rightarrow> handler" where
  "json_handler f \<equiv> JSONHandler (MultiWriter [Stdout, FileWriter f]) True LevelDebug"

definition prodHandler :: "Path \<Rightarrow> world \<Rightarrow> panic + handler \<times> world" where
  "prodHandler path w =
     (case openLogFile path w of
        (Inl err, w') \<Rightarrow> Inl (Panic err)
      | (Inr f, w') \<Rightarrow> Inr (json_handler f, w'))"

definition devHandler :: handler where
  "devHandler = TintHandler Stderr LevelDebug ''3:04:05PM'' True"

definition selectHandler :: "Mod \<Rightarrow> Path \<Rightarrow> world \<Rightarrow> panic + handler \<times> world" where
  "selectHandler m path w =
     (if m = ModProd then prodHandler path w else Inr (devHandler, w))"

section \<open>Rotation\<close>

text \<open>
  \<^verbatim>\<open>watcher\<close> only starts a goroutine: \<^verbatim>\<open>go func() { for { ... } }()\<close>. The
  goroutine is recorded in \<open>watchers\<close>; its loop body is \<open>watcher_iter\<close> below.
\<close>

definition watcher :: "nat \<Rightarrow> world \<Rightarrow> world" where
  "watcher ll w = w\<lparr>watchers := watchers w @ [ll]\<rparr>"

text \<open>
  The check under the read lock: \<^verbatim>\<open>shouldRotate := ll.today.Day() != time.Now().Day()\<close>.
\<close>

definition shouldRotate :: "nat \<Rightarrow> world \<Rightarrow> bool \<times> world" where
  "shouldRotate ll w = (let (t, w1) = time_Now w in (day (today (heap w1 ! ll)) \<noteq> day t, w1))"

text \<open>The second critical section: \<^verbatim>\<open>ll.Lock(); ll.today = time.Now(); ll.Unlock()\<close>.\<close>

definition set_today :: "nat \<Rightarrow> world \<Rightarrow> world" where
  "set_today ll w =
     (let (t, w1) = time_Now w in w1\<lparr>heap := (heap w1)[ll := (heap w1 ! ll)\<lparr>today := t\<rparr>]\<rparr>)"

text \<open>
  One pass through the body of the goroutine's loop, after \<^verbatim>\<open>time.Sleep(1 * time.Hour)\<close>
  has returned. A panic of \<^verbatim>\<open>prodHandler\<close> is not recovered and ends the process.
\<close>

definition watcher_iter :: "nat \<Rightarrow> world \<Rightarrow> panic + world" where
  "watcher_iter ll w =
     (let (rot, w1) = shouldRotate ll w
      in if rot then
           (case prodHandler (logsDict (heap w1 ! ll)) w1 of
              Inl p \<Rightarrow> Inl p
            | Inr (h, w2) \<Rightarrow> Inr (set_today ll (setLogger ll (slog_New h) w2)))
         else Inr w1)"

section \<open>One rotation pass beside concurrent emits\<close>

text \<open>
  The rotation loop runs in a goroutine of its own while other goroutines log through the
  instance. \<open>wpc\<close> is the position of the rotation goroutine within one pass of its loop
  body, from the return of \<^verbatim>\<open>time.Sleep\<close> (line 98) to the next call of it; each
  position names the statement that runs next:
  \<^item> \<open>W_rlock\<close>: \<^verbatim>\<open>ll.RLock()\<close>, line 99;
  \<^item> \<open>W_check\<close>: holding the read lock, \<^verbatim>\<open>ll.today.Day() != time.Now().Day()\<close>, line 100;
  \<^item> \<open>W_runlock rot\<close>: \<^verbatim>\<open>ll.RUnlock()\<close>, line 101, with the value of \<^verbatim>\<open>shouldRotate\<close>;
  \<^item> \<open>W_open\<close>: \<^verbatim>\<open>prodHandler(ll.logsDict)\<close>, the argument of the call in line 103;
  \<^item> \<open>W_lock1 h\<close>: inside \<^verbatim>\<open>setLogger\<close>, \<^verbatim>\<open>ll.Lock()\<close>, line 89;
  \<^item> \<open>W_set h\<close>: holding the write lock, \<^verbatim>\<open>ll.Logger = logger\<close>, line 91;
  \<^item> \<open>W_unlock1\<close>: the deferred \<^verbatim>\<open>ll.Unlock()\<close> of line 90;
  \<^item> \<open>W_lock2\<close>: \<^verbatim>\<open>ll.Lock()\<close>, line 104;
  \<^item> \<open>W_date\<close>: holding the write lock, \<^verbatim>\<open>ll.today = time.Now()\<close>, line 105;
  \<^item> \<open>W_unlock2\<close>: \<^verbatim>\<open>ll.Unlock()\<close>, line 106;
  \<^item> \<open>W_sleep\<close>: back at \<^verbatim>\<open>time.Sleep\<close>; the pass is over.
\<close>

datatype wpc =
    W_rlock
  | W_check
  | W_runlock bool
  | W_open
  | W_lock1 handler
  | W_set handler
  | W_unlock1
  | W_lock2
  | W_date
  | W_unlock2
  | W_sleep

text \<open>
  The state of the running system: the process state; the \<^verbatim>\<open>sync.RWMutex\<close> of the
  instance (whether it is held for writing, and by how many readers); the position of the
  rotation goroutine; the records emitted so far, each with the goroutine that emitted it,
  the sink it went through and the date the instance stored at the instant the emit read
  the sink (the emit itself reads only the sink); and the panic that ended the process, if
  any.
\<close>

record config =
  shared :: world
  wlocked :: bool
  rlocks :: nat
  wpc :: wpc
  emits :: "(nat \<times> slog_Logger \<times> time) list"
  crashed :: "panic option"

text \<open>A pass starts with no lock held and nothing emitted yet.\<close>

definition pass_start :: "world \<Rightarrow> config" where
  "pass_start w =
     \<lparr>shared = w, wlocked = False, rlocks = 0, wpc = W_rlock, emits = [], crashed = None\<rparr>"

text \<open>
  One statement of the rotation goroutine for the logger \<open>ll\<close>. \<^verbatim>\<open>RLock\<close> cannot proceed
  while the lock is held for writing, \<^verbatim>\<open>Lock\<close> cannot proceed while it is held at all;
  then there is no step. The field writes are those of \<open>setLogger\<close> and \<open>set_today\<close>.
\<close>

definition watcher_step :: "nat \<Rightarrow> config \<Rightarrow> config option" where
  "watcher_step ll c =
     (case wpc c of
        W_rlock \<Rightarrow>
          if wlocked c then None else Some (c\<lparr>rlocks := rlocks c + 1, wpc := W_check\<rparr>)
      | W_check \<Rightarrow>
          (let (rot, w1) = shouldRotate ll (shared c)
           in Some (c\<lparr>shared := w1, wpc := W_runlock rot\<rparr>))
      | W_runlock rot \<Rightarrow>
          Some (c\<lparr>rlocks := rlocks c - 1, wpc := (if rot then W_open else W_sleep)\<rparr>)
      | W_open \<Rightarrow>
          (case prodHandler (logsDict (heap (shared c) ! ll)) (shared c) of
             Inl p \<Rightarrow> Some (c\<lparr>crashed := Some p\<rparr>)
           | Inr (h, w2) \<Rightarrow> Some (c\<lparr>shared := w2, wpc := W_lock1 h\<rparr>))
      | W_lock1 h \<Rightarrow>
          if wlocked c \<or> rlocks c \<noteq> 0 then None
          else Some (c\<lparr>wlocked := True, wpc := W_set h\<rparr>)
      | W_set h \<Rightarrow>
          Some (c\<lparr>shared := setLogger ll (slog_New h) (shared c), wpc := W_unlock1\<rparr>)
      | W_unlock1 \<Rightarrow> Some (c\<lparr>wlocked := False, wpc := W_lock2\<rparr>)
      | W_lock2 \<Rightarrow>
          if wlocked c \<or> rlocks c \<noteq> 0 then None
          else Some (c\<lparr>wlocked := True, wpc := W_date\<rparr>)
      | W_date \<Rightarrow> Some (c\<lparr>shared := set_today ll (shared c), wpc := W_unlock2\<rparr>)
      | W_unlock2 \<Rightarrow> Some (c\<lparr>wlocked := False, wpc := W_sleep\<rparr>)
      | W_sleep \<Rightarrow> None)"

text \<open>
  A logging call on the instance (\<^verbatim>\<open>ll.Info(...)\<close> and the like) is a method of the
  embedded \<^verbatim>\<open>*slog.Logger\<close>: it reads the field \<^verbatim>\<open>ll.Logger\<close> once, without taking
  the lock; on a nil pointer it panics, otherwise \<^verbatim>\<open>log/slog\<close> stamps the record with
  \<^verbatim>\<open>time.Now()\<close> and hands it to the handler read.
\<close>

definition emit_step :: "nat \<Rightarrow> nat \<Rightarrow> config \<Rightarrow> config option" where
  "emit_step ll g c =
     (case slogLogger (heap (shared c) ! ll) of
        None \<Rightarrow> Some (c\<lparr>crashed := Some (Panic ''nil pointer dereference'')\<rparr>)
      | Some s \<Rightarrow>
          (let (t, w1) = time_Now (shared c)
           in Some (c\<lparr>shared := w1,
                      emits := emits c @ [(g, s, today (heap (shared c) ! ll))]\<rparr>)))"

text \<open>
  A schedule says which goroutine moves next: the rotation goroutine, or a logging call of
  the goroutine \<open>g\<close> (any number of emitting goroutines is any number of different \<open>g\<close>).
  After a panic nothing moves. \<open>run\<close> follows a schedule; it is \<open>None\<close> when the schedule
  asks for a step that cannot be taken.
\<close>

datatype action = Watcher | Emit nat

definition exec :: "nat \<Rightarrow> action \<Rightarrow> config \<Rightarrow> config option" where
  "exec ll a c =
     (if crashed c \<noteq> None then None
      else case a of Watcher \<Rightarrow> watcher_step ll c | Emit g \<Rightarrow> emit_step ll g c)"

fun run :: "nat \<Rightarrow> action list \<Rightarrow> config \<Rightarrow> config option" where
  "run ll [] c = Some c"
| "run ll (a # as) c = (case exec ll a c of None \<Rightarrow> None | Some c' \<Rightarrow> run ll as c')"

text \<open>
  The positions between a \<^verbatim>\<open>Lock\<close> and its \<^verbatim>\<open>Unlock\<close>, between the \<^verbatim>\<open>RLock\<close> and
  its \<^verbatim>\<open>RUnlock\<close>, before the assignment of the sink has run, and before the
  assignment of the date has run.
\<close>

fun in_write_section :: "wpc \<Rightarrow> bool" where
  "in_write_section (W_set h) = True"
| "in_write_section W_unlock1 = True"
| "in_write_section W_date = True"
| "in_write_section W_unlock2 = True"
| "in_write_section _ = False"

fun in_read_section :: "wpc \<Rightarrow> bool" where
  "in_read_section W_check = True"
| "in_read_section (W_runlock rot) = True"
| "in_read_section _ = False"

fun before_swap :: "wpc \<Rightarrow> bool" where
  "before_swap W_rlock = True"
| "before_swap W_check = True"
| "before_swap (W_runlock rot) = True"
| "before_swap W_open = True"
| "before_swap (W_lock1 h) = True"
| "before_swap (W_set h) = True"
| "before_swap _ = False"

fun before_date :: "wpc \<Rightarrow> bool" where
  "before_date W_unlock1 = True"
| "before_date W_lock2 = True"
| "before_date W_date = True"
| "before_date p = before_swap p"

text \<open>The two fields of the instance that a rotation writes.\<close>

definition sink_and_date :: "nat \<Rightarrow> world \<Rightarrow> slog_Logger option \<times> time" where
  "sink_and_date ll w = (slogLogger (heap w ! ll), today (heap w ! ll))"

text \<open>
  What a record was emitted against, for a pass that started in \<open>w\<close> and has reached
  \<open>w'\<close>: sink and date as they were in \<open>w\<close>, or the sink of \<open>w'\<close> with the date of \<open>w\<close>,
  or sink and date as they are in \<open>w'\<close>.
\<close>

definition ran_against :: "nat \<Rightarrow> world \<Rightarrow> world \<Rightarrow> slog_Logger \<times> time \<Rightarrow> bool" where
  "ran_against ll w w' x =
     ((Some (fst x), snd x) = sink_and_date ll w
      \<or> (Some (fst x), snd x) = (slogLogger (heap w' ! ll), today (heap w ! ll))
      \<or> (Some (fst x), snd x) = sink_and_date ll w')"

text \<open>
  What holds all along a pass that started in \<open>w\<close>: the logger exists; the write lock is
  held exactly inside the two write sections and the read lock exactly inside the read
  section; the sink is the old one until it is assigned and the date the old one until it
  is assigned; and every record was emitted against one of the three states above.
\<close>

definition pass_inv :: "nat \<Rightarrow> world \<Rightarrow> config \<Rightarrow> bool" where
  "pass_inv ll w c =
     (ll < length (heap (shared c))
      \<and> (wlocked c \<longleftrightarrow> in_write_section (wpc c))
      \<and> rlocks c = (if in_read_section (wpc c) then 1 else 0)
      \<and> (before_swap (wpc c) \<longrightarrow> slogLogger (heap (shared c) ! ll) = slogLogger (heap w ! ll))
      \<and> (before_date (wpc c) \<longrightarrow> today (heap (shared c) ! ll) = today (heap w ! ll))
      \<and> (\<forall>e \<in> set (emits c). ran_against ll w (shared c) (snd e)))"

section \<open>Construction\<close>

text \<open>\<^verbatim>\<open>slog.SetDefault(l.Logger)\<close> for the logger at \<open>ll\<close>.\<close>

definition slog_SetDefault :: "nat \<Rightarrow> world \<Rightarrow> world" where
  "slog_SetDefault ll w = w\<lparr>slog_default := slogLogger (heap w ! ll)\<rparr>"

text \<open>The package's \<^verbatim>\<open>init\<close> function, run once when the process starts.\<close>

definition init :: "world \<Rightarrow> panic + world" where
  "init w =
     (let m = getenv w ''LOGGER_MOD'';
          lType = getenv w ''LOGGER_TYPE'';
          sPath = getenv w ''LOGGER_SERVICE_PATH'';
          m = (if Empty m then DefaultMod else m);
          lType = (if Empty lType then DefaultType else lType);
          sPath = (if Empty sPath then DefaultServicePath else sPath);
          (ll, w1) = build sPath m lType w;
          w2 = w1\<lparr>instance_var := Some ll\<rparr>
      in case selectHandler m (logsDict (heap w2 ! ll)) w2 of
           Inl p \<Rightarrow> Inl p
         | Inr (h, w3) \<Rightarrow>
             (let w4 = setLogger ll (slog_New h) w3;
                  w5 = (if m = ModProd then watcher ll w4 else w4)
              in Inr (slog_SetDefault ll w5)))"

definition CreateProdLogger :: "Path \<Rightarrow> world \<Rightarrow> panic + world" where
  "CreateProdLogger ld w =
     (let ld = (if Empty ld then DefaultServicePath else ld);
          (ll, w1) = build ld ModProd DefaultType w
      in case prodHandler ld w1 of
           Inl p \<Rightarrow> Inl p
         | Inr (h, w2) \<Rightarrow>
             (let w3 = setLogger ll (slog_New h) w2;
                  w4 = watcher ll w3;
                  w5 = w4\<lparr>instance_var := Some ll\<rparr>
              in Inr (slog_SetDefault ll w5)))"

definition CreateDevLogger :: "world \<Rightarrow> world" where
  "CreateDevLogger w =
     (let (ll, w1) = build [] ModDev DefaultType w;
          w2 = setLogger ll (slog_New devHandler) w1;
          w3 = w2\<lparr>instance_var := Some ll\<rparr>
      in slog_SetDefault ll w3)"

definition CreateRequestLogger :: "Mod \<Rightarrow> Path \<Rightarrow> world \<Rightarrow> panic + nat \<times> world" where
  "CreateRequestLogger m ld w =
     (let ld = (if Empty ld then DefaultRequestPath else ld);
          (ll, w1) = build ld m TypeRequest w
      in if m = ModProd then
           (case prodHandler ld w1 of
              Inl p \<Rightarrow> Inl p
            | Inr (h, w2) \<Rightarrow> Inr (ll, setLogger ll (slog_New h) (watcher ll w2)))
         else Inr (ll, setLogger ll (slog_New devHandler) w1))"

section \<open>Runs of the process\<close>

text \<open>
  Before \<^verbatim>\<open>init\<close> runs, the package variable \<^verbatim>\<open>instance\<close> is nil, no
  \<^verbatim>\<open>Logger\<close> has been allocated, no file has been opened through the package and none
  of its goroutines exists.
\<close>

definition process_start :: "world \<Rightarrow> bool" where
  "process_start w =
     (heap w = [] \<and> instance_var w = None \<and> slog_default w = None \<and> watchers w = []
      \<and> open_files w = [] \<and> ticks w = 0)"

text \<open>
  What can happen after \<^verbatim>\<open>init\<close>: a caller runs one of the three exported constructors,
  or a started rotation goroutine runs its loop body once. A step that panics has no
  successor state.
\<close>

inductive step :: "world \<Rightarrow> world \<Rightarrow> bool" where
  step_prod: "CreateProdLogger ld w = Inr w' \<Longrightarrow> step w w'"
| step_dev: "step w (CreateDevLogger w)"
| step_request: "CreateRequestLogger m ld w = Inr (ll, w') \<Longrightarrow> step w w'"
| step_watcher: "ll \<in> set (watchers w) \<Longrightarrow> watcher_iter ll w = Inr w' \<Longrightarrow> step w w'"

inductive reachable :: "world \<Rightarrow> bool" where
  reach_init: "process_start w0 \<Longrightarrow> init w0 = Inr w \<Longrightarrow> reachable w"
| reach_step: "reachable w \<Longrightarrow> step w w' \<Longrightarrow> reachable w'"

text \<open>
  Every rotation goroutine belongs to an allocated logger, and the allocated loggers that
  have one are exactly those whose mode is production.
\<close>

definition watchers_inv :: "world \<Rightarrow> bool" where
  "watchers_inv w =
     ((\<forall>a \<in> set (watchers w). a < length (heap w)) \<and>
      (\<forall>a < length (heap w). a \<in> set (watchers w) \<longleftrightarrow> modL (heap w ! a) = ModProd))"

text \<open>
  From \<open>w\<close> to \<open>w'\<close> no logger disappeared, and every logger of \<open>w\<close> without a rotation
  goroutine is still the same and still has none.
\<close>

definition untouched :: "world \<Rightarrow> world \<Rightarrow> bool" where
  "untouched w w' =
     (length (heap w) \<le> length (heap w') \<and>
      (\<forall>a < length (heap w). a \<notin> set (watchers w) \<longrightarrow>
         heap w' ! a = heap w ! a \<and> a \<notin> set (watchers w')))"


section \<open>What construction leaves behind\<close>

text \<open>
  Making the directory \<open>p\<close> and opening the file named from \<open>p\<close> and the clock reading
  \<open>t\<close> both succeed.
\<close>

abbreviation open_ok :: "Path \<Rightarrow> time \<Rightarrow> world \<Rightarrow> bool" where
  "open_ok p t w \<equiv> mkdir_err w p = None \<and> open_err w (p @ DateOnly t @ ''.txt'') = None"

text \<open>
  The logger at \<open>ll\<close> in the state \<open>w'\<close>, built from the state \<open>w\<close>, has an active sink
  and an unset \<^verbatim>\<open>logFile\<close> field. In production mode the sink is the JSON handler on
  standard output and one newly opened file, opened for appending, created if absent,
  write-only; when the log directory ends with \<^verbatim>\<open>/\<close>, that file is the one named by the
  date inside it. In any other mode the sink is the development handler and no file was
  opened.
\<close>

abbreviation sink_ready :: "world \<Rightarrow> world \<Rightarrow> nat \<Rightarrow> bool" where
  "sink_ready w w' ll \<equiv>
     slogLogger (heap w' ! ll) \<noteq> None \<and> logFile (heap w' ! ll) = None \<and>
     (if modL (heap w' ! ll) = ModProd then
        (\<exists>f. slogLogger (heap w' ! ll) = Some (slog_New (json_handler f))
           \<and> open_files w' = open_files w @ [f] \<and> fd f = length (open_files w)
           \<and> append_flag f \<and> create_flag f \<and> wronly_flag f
           \<and> (\<forall>d. logsDict (heap w' ! ll) = d @ ''/'' \<longrightarrow>
                 fname f = d @ ''/'' @ DateOnly (clock w (ticks w + 1)) @ ''.txt''))
      else slogLogger (heap w' ! ll) = Some (slog_New devHandler)
           \<and> open_files w' = open_files w)"


section \<open>Example states\<close>

definition jan15 :: time where
  "jan15 = \<lparr>year = 2024, month = 1, day = 15, hour = 23, minute = 30, second = 0\<rparr>"

definition jan16 :: time where
  "jan16 = \<lparr>year = 2024, month = 1, day = 16, hour = 0, minute = 30, second = 0\<rparr>"

text \<open>
  A process about to start on 15 January 2024 with an empty environment and a file system
  on which nothing fails; the clock passes midnight after its second reading.
\<close>

definition demo_start :: world where
  "demo_start =
     \<lparr>clock = (\<lambda>n. if n < 2 then jan15 else jan16), ticks = 0, getenv = (\<lambda>k. []),
      mkdir_err = (\<lambda>p. None), open_err = (\<lambda>p. None), dirs = [], open_files = [],
      heap = [], instance_var = None, slog_default = None, watchers = []\<rparr>"

text \<open>The same process configured for production through its environment.\<close>

definition demo_prod :: world where
  "demo_prod =
     demo_start\<lparr>getenv :=
       (\<lambda>k. if k = ''LOGGER_MOD'' then ''prod''
            else if k = ''LOGGER_SERVICE_PATH'' then ''/var/log/app/'' else [])\<rparr>"

text \<open>The same process on a file system where no directory can be created.\<close>

definition demo_readonly :: world where
  "demo_readonly = demo_start\<lparr>mkdir_err := (\<lambda>p. Some ''read-only file system'')\<rparr>"

text \<open>
  The state \<open>demo_start\<close> after \<^verbatim>\<open>CreateRequestLogger("prod", "/var/log/app/")\<close>: one
  production logger with a running rotation goroutine, writing to the file of 15 January.
\<close>

definition demo_running :: world where
  "demo_running =
     demo_start\<lparr>ticks := 2, dirs := [''/var/log/app/''],
       open_files := [log_file ''/var/log/app/2024-01-15.txt'' 0],
       heap := [\<lparr>slogLogger =
                   Some (slog_New (json_handler (log_file ''/var/log/app/2024-01-15.txt'' 0))),
                 logFile = None, logsDict = ''/var/log/app/'', modL = ''prod'',
                 LoggerType = ''request'', today = jan15\<rparr>],
       watchers := [0]\<rparr>"

text \<open>The state \<open>demo_running\<close> after the rotation goroutine has run once past midnight.\<close>

definition demo_rotated :: world where
  "demo_rotated =
     demo_running\<lparr>ticks := 5, dirs := [''/var/log/app/'', ''/var/log/app/''],
       open_files := [log_file ''/var/log/app/2024-01-15.txt'' 0,
                      log_file ''/var/log/app/2024-01-16.txt'' 1],
       heap := [\<lparr>slogLogger =
                   Some (slog_New (json_handler (log_file ''/var/log/app/2024-01-16.txt'' 1))),
                 logFile = None, logsDict = ''/var/log/app/'', modL = ''prod'',
                 LoggerType = ''request'', today = jan16\<rparr>]\<rparr>"


text \<open>
  The state \<open>demo_start\<close> after \<^verbatim>\<open>init\<close> (a development logger as the singleton), and
  that state after \<^verbatim>\<open>CreateRequestLogger("prod", "/var/log/app/")\<close>, whose file is opened
  just after midnight.
\<close>

definition demo_dev :: world where
  "demo_dev =
     demo_start\<lparr>ticks := 1,
       heap := [\<lparr>slogLogger = Some (slog_New devHandler), logFile = None,
                 logsDict = ''./logs/service_logs/'', modL = ''dev'',
                 LoggerType = ''service'', today = jan15\<rparr>],
       instance_var := Some 0, slog_default := Some (slog_New devHandler)\<rparr>"

definition demo_two :: world where
  "demo_two =
     demo_dev\<lparr>ticks := 3, dirs := [''/var/log/app/''],
       open_files := [log_file ''/var/log/app/2024-01-16.txt'' 0],
       heap := [\<lparr>slogLogger = Some (slog_New devHandler), logFile = None,
                 logsDict = ''./logs/service_logs/'', modL = ''dev'',
                 LoggerType = ''service'', today = jan15\<rparr>,
                \<lparr>slogLogger =
                   Some (slog_New (json_handler (log_file ''/var/log/app/2024-01-16.txt'' 0))),
                 logFile = None, logsDict = ''/var/log/app/'', modL = ''prod'',
                 LoggerType = ''request'', today = jan15\<rparr>],
       watchers := [1]\<rparr>"


text \<open>
  The state \<open>demo_start\<close> after \<^verbatim>\<open>CreateRequestLogger("prod", "/tmp/t1")\<close>: a production
  logger whose log directory does not end with a separator.
\<close>

definition demo_noslash :: world where
  "demo_noslash =
     demo_start\<lparr>ticks := 2, dirs := [''/tmp/t1''],
       open_files := [log_file ''/tmp/t12024-01-15.txt'' 0],
       heap := [\<lparr>slogLogger =
                   Some (slog_New (json_handler (log_file ''/tmp/t12024-01-15.txt'' 0))),
                 logFile = None, logsDict = ''/tmp/t1'', modL = ''prod'',
                 LoggerType = ''request'', today = jan15\<rparr>],
       watchers := [0]\<rparr>"


section \<open>Basic facts\<close>

lemmas consts_defs =
  ModProd_def ModDev_def TypeService_def TypeRequest_def DefaultMod_def DefaultType_def
  DefaultServicePath_def DefaultRequestPath_def

lemma DateOnly_jan15: "DateOnly jan15 = ''2024-01-15''"
  by (simp add: DateOnly_def appendInt_def jan15_def decimal.simps)

lemma DateOnly_jan16: "DateOnly jan16 = ''2024-01-16''"
  by (simp add: DateOnly_def appendInt_def jan16_def decimal.simps)

text \<open>\<^verbatim>\<open>openLogFile\<close> with its local bindings unfolded.\<close>

lemma openLogFile_eq:
  "openLogFile path w =
     (case mkdir_err w path of
        Some e \<Rightarrow> (Inl e, w\<lparr>ticks := ticks w + 1\<rparr>)
      | None \<Rightarrow>
          (case open_err w (path @ DateOnly (clock w (ticks w)) @ ''.txt'') of
             Some e \<Rightarrow> (Inl e, w\<lparr>ticks := ticks w + 1, dirs := dirs w @ [path]\<rparr>)
           | None \<Rightarrow>
               (Inr (log_file (path @ DateOnly (clock w (ticks w)) @ ''.txt'')
                       (length (open_files w))),
                w\<lparr>ticks := ticks w + 1, dirs := dirs w @ [path],
                  open_files := open_files w @
                    [log_file (path @ DateOnly (clock w (ticks w)) @ ''.txt'')
                       (length (open_files w))]\<rparr>)))"
  by (simp add: openLogFile_def time_Now_def os_MkdirAll_def os_OpenFile_def Let_def
      split: option.splits)

lemma prodHandler_eq:
  "prodHandler path w =
     (case mkdir_err w path of
        Some e \<Rightarrow> Inl (Panic e)
      | None \<Rightarrow>
          (case open_err w (path @ DateOnly (clock w (ticks w)) @ ''.txt'') of
             Some e \<Rightarrow> Inl (Panic e)
           | None \<Rightarrow>
               Inr (json_handler (log_file (path @ DateOnly (clock w (ticks w)) @ ''.txt'')
                       (length (open_files w))),
                w\<lparr>ticks := ticks w + 1, dirs := dirs w @ [path],
                  open_files := open_files w @
                    [log_file (path @ DateOnly (clock w (ticks w)) @ ''.txt'')
                       (length (open_files w))]\<rparr>)))"
  by (simp add: prodHandler_def openLogFile_eq split: option.splits)

lemma build_eq:
  "build ld m lType w =
     (length (heap w),
      w\<lparr>ticks := ticks w + 1,
        heap := heap w @ [\<lparr>slogLogger = None, logFile = None, logsDict = ld, modL = m,
                           LoggerType = lType, today = clock w (ticks w)\<rparr>]\<rparr>)"
  by (simp add: build_def time_Now_def)

lemma CreateDevLogger_eq:
  "CreateDevLogger w =
     w\<lparr>ticks := ticks w + 1,
       heap := heap w @ [\<lparr>slogLogger = Some (slog_New devHandler), logFile = None,
                          logsDict = [], modL = ModDev, LoggerType = DefaultType,
                          today = clock w (ticks w)\<rparr>],
       instance_var := Some (length (heap w)),
       slog_default := Some (slog_New devHandler)\<rparr>"
  by (simp add: CreateDevLogger_def build_eq setLogger_def slog_SetDefault_def)

lemma CreateRequestLogger_dev_eq:
  "m \<noteq> ModProd \<Longrightarrow>
   CreateRequestLogger m ld w =
     Inr (length (heap w),
          w\<lparr>ticks := ticks w + 1,
            heap := heap w @ [\<lparr>slogLogger = Some (slog_New devHandler), logFile = None,
                               logsDict = (if ld = [] then DefaultRequestPath else ld),
                               modL = m, LoggerType = TypeRequest,
                               today = clock w (ticks w)\<rparr>]\<rparr>)"
  by (simp add: CreateRequestLogger_def build_eq setLogger_def Empty_def)

lemma CreateRequestLogger_prod_eq:
  "CreateRequestLogger ModProd ld w =
     (let p = (if ld = [] then DefaultRequestPath else ld);
          n = p @ DateOnly (clock w (ticks w + 1)) @ ''.txt''
      in case mkdir_err w p of
           Some e \<Rightarrow> Inl (Panic e)
         | None \<Rightarrow>
             (case open_err w n of
                Some e \<Rightarrow> Inl (Panic e)
              | None \<Rightarrow>
                  Inr (length (heap w),
                       w\<lparr>ticks := ticks w + 2, dirs := dirs w @ [p],
                         open_files := open_files w @ [log_file n (length (open_files w))],
                         heap := heap w @
                           [\<lparr>slogLogger =
                                Some (slog_New (json_handler (log_file n (length (open_files w))))),
                              logFile = None, logsDict = p, modL = ModProd,
                              LoggerType = TypeRequest, today = clock w (ticks w)\<rparr>],
                         watchers := watchers w @ [length (heap w)]\<rparr>)))"
  by (simp add: CreateRequestLogger_def build_eq prodHandler_eq setLogger_def watcher_def
      Empty_def Let_def split: option.splits)

lemma CreateProdLogger_eq:
  "CreateProdLogger ld w =
     (let p = (if ld = [] then DefaultServicePath else ld);
          n = p @ DateOnly (clock w (ticks w + 1)) @ ''.txt''
      in case mkdir_err w p of
           Some e \<Rightarrow> Inl (Panic e)
         | None \<Rightarrow>
             (case open_err w n of
                Some e \<Rightarrow> Inl (Panic e)
              | None \<Rightarrow>
                  Inr (w\<lparr>ticks := ticks w + 2, dirs := dirs w @ [p],
                         open_files := open_files w @ [log_file n (length (open_files w))],
                         heap := heap w @
                           [\<lparr>slogLogger =
                                Some (slog_New (json_handler (log_file n (length (open_files w))))),
                              logFile = None, logsDict = p, modL = ModProd,
                              LoggerType = DefaultType, today = clock w (ticks w)\<rparr>],
                         instance_var := Some (length (heap w)),
                         slog_default :=
                           Some (slog_New (json_handler (log_file n (length (open_files w))))),
                         watchers := watchers w @ [length (heap w)]\<rparr>)))"
  by (simp add: CreateProdLogger_def build_eq prodHandler_eq setLogger_def watcher_def
      slog_SetDefault_def Empty_def Let_def split: option.splits)

lemma init_eq:
  "init w =
     (let m = (if getenv w ''LOGGER_MOD'' = [] then DefaultMod else getenv w ''LOGGER_MOD'');
          lType = (if getenv w ''LOGGER_TYPE'' = [] then DefaultType else getenv w ''LOGGER_TYPE'');
          p = (if getenv w ''LOGGER_SERVICE_PATH'' = [] then DefaultServicePath
               else getenv w ''LOGGER_SERVICE_PATH'');
          n = p @ DateOnly (clock w (ticks w + 1)) @ ''.txt''
      in if m = ModProd then
           (case mkdir_err w p of
              Some e \<Rightarrow> Inl (Panic e)
            | None \<Rightarrow>
                (case open_err w n of
                   Some e \<Rightarrow> Inl (Panic e)
                 | None \<Rightarrow>
                     Inr (w\<lparr>ticks := ticks w + 2, dirs := dirs w @ [p],
                            open_files := open_files w @ [log_file n (length (open_files w))],
                            heap := heap w @
                              [\<lparr>slogLogger =
                                   Some (slog_New (json_handler (log_file n (length (open_files w))))),
                                 logFile = None, logsDict = p, modL = m,
                                 LoggerType = lType, today = clock w (ticks w)\<rparr>],
                            instance_var := Some (length (heap w)),
                            slog_default :=
                              Some (slog_New (json_handler (log_file n (length (open_files w))))),
                            watchers := watchers w @ [length (heap w)]\<rparr>)))
         else
           Inr (w\<lparr>ticks := ticks w + 1,
                  heap := heap w @
                    [\<lparr>slogLogger = Some (slog_New devHandler), logFile = None,
                       logsDict = p, modL = m, LoggerType = lType,
                       today = clock w (ticks w)\<rparr>],
                  instance_var := Some (length (heap w)),
                  slog_default := Some (slog_New devHandler)\<rparr>))"
  by (simp add: init_def build_eq selectHandler_def prodHandler_eq setLogger_def watcher_def
      slog_SetDefault_def Empty_def Let_def split: option.splits)

text \<open>One pass of the rotation loop with its local bindings unfolded.\<close>

lemma watcher_iter_eq:
  "watcher_iter ll w =
     (if day (today (heap w ! ll)) = day (clock w (ticks w)) then Inr (w\<lparr>ticks := ticks w + 1\<rparr>)
      else
        (let p = logsDict (heap w ! ll);
             n = p @ DateOnly (clock w (ticks w + 1)) @ ''.txt''
         in case mkdir_err w p of
              Some e \<Rightarrow> Inl (Panic e)
            | None \<Rightarrow>
                (case open_err w n of
                   Some e \<Rightarrow> Inl (Panic e)
                 | None \<Rightarrow>
                     Inr (w\<lparr>ticks := ticks w + 3, dirs := dirs w @ [p],
                            open_files := open_files w @ [log_file n (length (open_files w))],
                            heap := (heap w)[ll := (heap w ! ll)
                              \<lparr>slogLogger :=
                                 Some (slog_New (json_handler (log_file n (length (open_files w))))),
                               today := clock w (ticks w + 2)\<rparr>]\<rparr>))))"
proof (cases "ll < length (heap w)")
  case True
  then show ?thesis
    by (simp add: watcher_iter_def shouldRotate_def time_Now_def prodHandler_eq setLogger_def
        set_today_def Let_def split: option.splits)
next
  case False
  then have "length (heap w) \<le> ll" by simp
  then show ?thesis
    by (simp add: list_update_beyond watcher_iter_def shouldRotate_def time_Now_def prodHandler_eq setLogger_def
        set_today_def Let_def split: option.splits)
qed

lemma watcher_iter_rotated:
  assumes "day (today (heap w ! ll)) \<noteq> day (clock w (ticks w))"
    and "watcher_iter ll w = Inr w'"
  shows "w' = w\<lparr>ticks := ticks w + 3, dirs := dirs w @ [logsDict (heap w ! ll)],
               open_files := open_files w @
                 [log_file (logsDict (heap w ! ll) @ DateOnly (clock w (ticks w + 1)) @ ''.txt'')
                    (length (open_files w))],
               heap := (heap w)[ll := (heap w ! ll)
                 \<lparr>slogLogger := Some (slog_New (json_handler
                    (log_file (logsDict (heap w ! ll) @ DateOnly (clock w (ticks w + 1)) @ ''.txt'')
                       (length (open_files w))))),
                  today := clock w (ticks w + 2)\<rparr>]\<rparr>"
  using assms by (simp add: watcher_iter_eq Let_def split: option.splits)

lemma watcher_iter_idle:
  assumes "day (today (heap w ! ll)) = day (clock w (ticks w))"
  shows "watcher_iter ll w = Inr (w\<lparr>ticks := ticks w + 1\<rparr>)"
  using assms by (simp add: watcher_iter_eq)


lemma day_jan [simp]: "day jan15 = 15" "day jan16 = 16"
  by (simp_all add: jan15_def jan16_def)

lemma demo_rotation: "watcher_iter 0 demo_running = Inr demo_rotated"
  by (simp add: watcher_iter_eq demo_running_def demo_rotated_def demo_start_def Let_def
      DateOnly_jan16)

lemma demo_no_rotation: "watcher_iter 0 demo_rotated = Inr (demo_rotated\<lparr>ticks := 6\<rparr>)"
  by (simp add: watcher_iter_eq demo_running_def demo_rotated_def demo_start_def)


section \<open>The file name\<close>

text \<open>
  Claim C2. The file is meant to be \<^verbatim>\<open><path>/<YYYY-MM-DD>.txt\<close> whether or not the path
  ends with a separator. \<^verbatim>\<open>openLogFile\<close> appends the date to the path with nothing in
  between: for the path \<^verbatim>\<open>/tmp/t1\<close> on 15 January 2024 it creates the directory
  \<^verbatim>\<open>/tmp/t1\<close> and then opens \<^verbatim>\<open>/tmp/t12024-01-15.txt\<close>, a file beside that
  directory and not \<^verbatim>\<open>/tmp/t1/2024-01-15.txt\<close> inside it.
\<close>

theorem openLogFile_no_separator:
  "openLogFile ''/tmp/t1'' demo_start =
     (Inr (log_file ''/tmp/t12024-01-15.txt'' 0),
      demo_start\<lparr>ticks := 1, dirs := [''/tmp/t1''],
        open_files := [log_file ''/tmp/t12024-01-15.txt'' 0]\<rparr>)"
  by (simp add: openLogFile_eq demo_start_def DateOnly_jan15)

section \<open>The handler factory\<close>

text \<open>
  Claim C6. For every mode other than \<^verbatim>\<open>"prod"\<close>, recognised or not, \<^verbatim>\<open>selectHandler\<close>
  returns the development handler (colourised text on the error console, level debug, time
  format \<^verbatim>\<open>3:04:05PM\<close>, source locations on); it does not fail and touches nothing.
\<close>

theorem selectHandler_not_prod:
  "m \<noteq> ''prod'' \<Longrightarrow>
   selectHandler m path w = Inr (TintHandler Stderr LevelDebug ''3:04:05PM'' True, w)"
  by (simp add: selectHandler_def ModProd_def devHandler_def)

theorem selectHandler_not_prod_witness:
  "''staging'' \<noteq> ''prod'' \<and>
   selectHandler ''staging'' ''/var/log/app/'' demo_start =
     Inr (TintHandler Stderr LevelDebug ''3:04:05PM'' True, demo_start)"
  using selectHandler_not_prod [of "''staging''" "''/var/log/app/''" demo_start] by simp

lemma demo_running_built:
  "CreateRequestLogger ''prod'' ''/var/log/app/'' demo_start = Inr (0, demo_running)"
  by (simp add: CreateRequestLogger_prod_eq [unfolded ModProd_def] demo_start_def
      demo_running_def DateOnly_jan15 TypeRequest_def Let_def)

section \<open>I/O errors during construction\<close>

lemma prodHandler_fails:
  "open_fails p (clock w (ticks w)) w e \<Longrightarrow> prodHandler p w = Inl (Panic e)"
  by (auto simp: prodHandler_eq)

text \<open>
  Claim C7. When the directory cannot be created or the file cannot be opened while the
  first production sink is built, construction panics with that error: \<^verbatim>\<open>openLogFile\<close>
  returns the error, \<^verbatim>\<open>prodHandler\<close> and \<^verbatim>\<open>selectHandler\<close> panic with it, and so do
  \<^verbatim>\<open>CreateProdLogger\<close>, \<^verbatim>\<open>CreateRequestLogger\<close> in production mode and the startup
  \<^verbatim>\<open>init\<close> in production mode. No logger is returned or installed. (The constructors
  read the clock once in \<^verbatim>\<open>build\<close> before the file is named, hence the second
  reading.)
\<close>

theorem construction_panics_on_io_error:
  "(open_fails p (clock w (ticks w)) w e \<longrightarrow>
      fst (openLogFile p w) = Inl e \<and> prodHandler p w = Inl (Panic e) \<and>
      selectHandler ModProd p w = Inl (Panic e))
   \<and> (open_fails (if ld = [] then DefaultServicePath else ld) (clock w (ticks w + 1)) w e \<longrightarrow>
        CreateProdLogger ld w = Inl (Panic e))
   \<and> (open_fails (if ld = [] then DefaultRequestPath else ld) (clock w (ticks w + 1)) w e \<longrightarrow>
        CreateRequestLogger ModProd ld w = Inl (Panic e))
   \<and> (getenv w ''LOGGER_MOD'' = ModProd \<and>
       open_fails (if getenv w ''LOGGER_SERVICE_PATH'' = [] then DefaultServicePath
                   else getenv w ''LOGGER_SERVICE_PATH'') (clock w (ticks w + 1)) w e \<longrightarrow>
        init w = Inl (Panic e))"
proof (intro conjI impI)
  assume "open_fails p (clock w (ticks w)) w e"
  then show "fst (openLogFile p w) = Inl e" by (auto simp: openLogFile_eq)
next
  assume "open_fails p (clock w (ticks w)) w e"
  then show "prodHandler p w = Inl (Panic e)" by (rule prodHandler_fails)
next
  assume "open_fails p (clock w (ticks w)) w e"
  then show "selectHandler ModProd p w = Inl (Panic e)"
    by (simp add: selectHandler_def prodHandler_fails)
next
  assume "open_fails (if ld = [] then DefaultServicePath else ld) (clock w (ticks w + 1)) w e"
  then show "CreateProdLogger ld w = Inl (Panic e)"
    by (auto simp: CreateProdLogger_eq Let_def)
next
  assume "open_fails (if ld = [] then DefaultRequestPath else ld) (clock w (ticks w + 1)) w e"
  then show "CreateRequestLogger ModProd ld w = Inl (Panic e)"
    by (auto simp: CreateRequestLogger_prod_eq Let_def)
next
  assume "getenv w ''LOGGER_MOD'' = ModProd \<and>
       open_fails (if getenv w ''LOGGER_SERVICE_PATH'' = [] then DefaultServicePath
                   else getenv w ''LOGGER_SERVICE_PATH'') (clock w (ticks w + 1)) w e"
  then show "init w = Inl (Panic e)"
    by (auto simp: init_eq Let_def ModProd_def)
qed

theorem construction_panics_on_io_error_witness:
  "mkdir_err demo_readonly ''/var/log/app/'' = Some ''read-only file system''
   \<and> prodHandler ''/var/log/app/'' demo_readonly = Inl (Panic ''read-only file system'')
   \<and> CreateProdLogger ''/var/log/app/'' demo_readonly = Inl (Panic ''read-only file system'')
   \<and> CreateRequestLogger ''prod'' ''/var/log/app/'' demo_readonly =
       Inl (Panic ''read-only file system'')
   \<and> getenv (demo_readonly\<lparr>getenv := getenv demo_prod\<rparr>) ''LOGGER_MOD'' = ''prod''
   \<and> init (demo_readonly\<lparr>getenv := getenv demo_prod\<rparr>) = Inl (Panic ''read-only file system'')"
proof -
  have m: "mkdir_err demo_readonly ''/var/log/app/'' = Some ''read-only file system''"
    by (simp add: demo_readonly_def)
  have g: "getenv (demo_readonly\<lparr>getenv := getenv demo_prod\<rparr>) ''LOGGER_MOD'' = ''prod''"
    by (simp add: demo_prod_def)
  have p: "getenv (demo_readonly\<lparr>getenv := getenv demo_prod\<rparr>) ''LOGGER_SERVICE_PATH'' =
      ''/var/log/app/''"
    by (simp add: demo_prod_def)
  have m': "mkdir_err (demo_readonly\<lparr>getenv := getenv demo_prod\<rparr>) ''/var/log/app/'' =
      Some ''read-only file system''"
    by (simp add: demo_readonly_def)
  show ?thesis
    using m g p m'
      construction_panics_on_io_error [where p = "''/var/log/app/''" and w = demo_readonly
        and e = "''read-only file system''" and ld = "''/var/log/app/''"]
      construction_panics_on_io_error [where p = "''/var/log/app/''"
        and w = "demo_readonly\<lparr>getenv := getenv demo_prod\<rparr>"
        and e = "''read-only file system''" and ld = "''/var/log/app/''"]
    by (simp add: ModProd_def)
qed

section \<open>The request logger and the singleton\<close>

text \<open>
  Claim C9. \<^verbatim>\<open>CreateRequestLogger\<close> returns a pointer to a newly allocated
  \<^verbatim>\<open>Logger\<close> (an address that did not exist before; every logger that did is
  unchanged) of the given mode and of category request, and leaves \<^verbatim>\<open>instance\<close>, hence
  the value of \<^verbatim>\<open>Get()\<close>, and the \<^verbatim>\<open>slog\<close> default logger as they were. Outside
  production mode it always returns.
\<close>

theorem CreateRequestLogger_leaves_singleton:
  "(m \<noteq> ModProd \<longrightarrow> (\<exists>ll w'. CreateRequestLogger m ld w = Inr (ll, w')))
   \<and> (\<forall>ll w'. CreateRequestLogger m ld w = Inr (ll, w') \<longrightarrow>
         Get w' = Get w \<and> instance_var w' = instance_var w \<and> slog_default w' = slog_default w
         \<and> ll = length (heap w) \<and> length (heap w') = length (heap w) + 1
         \<and> take (length (heap w)) (heap w') = heap w
         \<and> modL (heap w' ! ll) = m \<and> LoggerType (heap w' ! ll) = TypeRequest)"
proof (cases "m = ModProd")
  case True
  then show ?thesis
    by (auto simp: CreateRequestLogger_prod_eq Get_def Let_def split: option.splits)
next
  case False
  then show ?thesis
    by (auto simp: CreateRequestLogger_dev_eq Get_def)
qed

theorem CreateRequestLogger_leaves_singleton_witness:
  "CreateRequestLogger ''prod'' ''/var/log/app/'' demo_start = Inr (0, demo_running)
   \<and> Get demo_running = Get demo_start
   \<and> slog_default demo_running = slog_default demo_start
   \<and> length (heap demo_start) = 0
   \<and> length (heap demo_running) = 1
   \<and> modL (heap demo_running ! 0) = ''prod''
   \<and> LoggerType (heap demo_running ! 0) = ''request''"
  using demo_running_built
    CreateRequestLogger_leaves_singleton [of "''prod''" "''/var/log/app/''" demo_start]
  by (simp add: demo_start_def demo_running_def TypeRequest_def)

section \<open>Defaults\<close>

text \<open>
  Claim C5 says that every construction with an empty mode, category or path yields
  development, service and \<^verbatim>\<open>./logs/service_logs/\<close>, also for the explicit
  constructors. \<^verbatim>\<open>CreateRequestLogger("", "")\<close> yields a logger with the path
  \<^verbatim>\<open>./logs/request_logs/\<close>, the category request and the empty mode.
\<close>

theorem request_logger_defaults_differ:
  "CreateRequestLogger [] [] demo_start =
     Inr (0, demo_start\<lparr>ticks := 1,
               heap := [\<lparr>slogLogger = Some (slog_New devHandler), logFile = None,
                         logsDict = ''./logs/request_logs/'', modL = [],
                         LoggerType = ''request'', today = jan15\<rparr>]\<rparr>)"
  by (simp add: CreateRequestLogger_dev_eq consts_defs demo_start_def)


text \<open>
  Claim C5, as the code has it. \<^verbatim>\<open>init\<close> replaces an empty \<^verbatim>\<open>LOGGER_MOD\<close>,
  \<^verbatim>\<open>LOGGER_TYPE\<close> or \<^verbatim>\<open>LOGGER_SERVICE_PATH\<close> by \<^verbatim>\<open>dev\<close>, \<^verbatim>\<open>service\<close> and
  \<^verbatim>\<open>./logs/service_logs/\<close>, and with an empty mode it always succeeds;
  \<^verbatim>\<open>CreateProdLogger\<close> replaces an empty path by \<^verbatim>\<open>./logs/service_logs/\<close>;
  \<^verbatim>\<open>CreateRequestLogger\<close> replaces an empty path by \<^verbatim>\<open>./logs/request_logs/\<close>, always
  sets the category request, and stores the mode as it is given.
\<close>

theorem default_substitution:
  "(\<forall>w'. init w = Inr w' \<longrightarrow>
      instance_var w' = Some (length (heap w))
      \<and> modL (heap w' ! length (heap w)) =
          (if getenv w ''LOGGER_MOD'' = [] then ''dev'' else getenv w ''LOGGER_MOD'')
      \<and> LoggerType (heap w' ! length (heap w)) =
          (if getenv w ''LOGGER_TYPE'' = [] then ''service'' else getenv w ''LOGGER_TYPE'')
      \<and> logsDict (heap w' ! length (heap w)) =
          (if getenv w ''LOGGER_SERVICE_PATH'' = [] then ''./logs/service_logs/''
           else getenv w ''LOGGER_SERVICE_PATH''))
   \<and> (getenv w ''LOGGER_MOD'' = [] \<longrightarrow> (\<exists>w'. init w = Inr w'))
   \<and> CreateProdLogger [] w = CreateProdLogger ''./logs/service_logs/'' w
   \<and> (\<forall>w'. CreateProdLogger ld w = Inr w' \<longrightarrow>
        instance_var w' = Some (length (heap w))
        \<and> modL (heap w' ! length (heap w)) = ''prod''
        \<and> LoggerType (heap w' ! length (heap w)) = ''service''
        \<and> logsDict (heap w' ! length (heap w)) =
            (if ld = [] then ''./logs/service_logs/'' else ld))
   \<and> CreateRequestLogger m [] w = CreateRequestLogger m ''./logs/request_logs/'' w
   \<and> (\<forall>ll w'. CreateRequestLogger m ld w = Inr (ll, w') \<longrightarrow>
        modL (heap w' ! ll) = m
        \<and> LoggerType (heap w' ! ll) = ''request''
        \<and> logsDict (heap w' ! ll) = (if ld = [] then ''./logs/request_logs/'' else ld))"
proof (intro conjI allI impI)
  fix w' assume "init w = Inr w'"
  then have "instance_var w' = Some (length (heap w))
      \<and> modL (heap w' ! length (heap w)) =
          (if getenv w ''LOGGER_MOD'' = [] then ''dev'' else getenv w ''LOGGER_MOD'')
      \<and> LoggerType (heap w' ! length (heap w)) =
          (if getenv w ''LOGGER_TYPE'' = [] then ''service'' else getenv w ''LOGGER_TYPE'')
      \<and> logsDict (heap w' ! length (heap w)) =
          (if getenv w ''LOGGER_SERVICE_PATH'' = [] then ''./logs/service_logs/''
           else getenv w ''LOGGER_SERVICE_PATH'')"
    by (auto simp: init_eq Let_def consts_defs split: if_splits option.splits)
  then show "instance_var w' = Some (length (heap w))"
    and "modL (heap w' ! length (heap w)) =
          (if getenv w ''LOGGER_MOD'' = [] then ''dev'' else getenv w ''LOGGER_MOD'')"
    and "LoggerType (heap w' ! length (heap w)) =
          (if getenv w ''LOGGER_TYPE'' = [] then ''service'' else getenv w ''LOGGER_TYPE'')"
    and "logsDict (heap w' ! length (heap w)) =
          (if getenv w ''LOGGER_SERVICE_PATH'' = [] then ''./logs/service_logs/''
           else getenv w ''LOGGER_SERVICE_PATH'')"
    by simp_all
next
  assume "getenv w ''LOGGER_MOD'' = []"
  then show "\<exists>w'. init w = Inr w'"
    by (simp add: init_eq Let_def consts_defs)
next
  show "CreateProdLogger [] w = CreateProdLogger ''./logs/service_logs/'' w"
    by (simp add: CreateProdLogger_def Empty_def DefaultServicePath_def)
next
  fix w' assume "CreateProdLogger ld w = Inr w'"
  then have "instance_var w' = Some (length (heap w))
        \<and> modL (heap w' ! length (heap w)) = ''prod''
        \<and> LoggerType (heap w' ! length (heap w)) = ''service''
        \<and> logsDict (heap w' ! length (heap w)) =
            (if ld = [] then ''./logs/service_logs/'' else ld)"
    by (auto simp: CreateProdLogger_eq Let_def consts_defs split: if_splits option.splits)
  then show "instance_var w' = Some (length (heap w))"
    and "modL (heap w' ! length (heap w)) = ''prod''"
    and "LoggerType (heap w' ! length (heap w)) = ''service''"
    and "logsDict (heap w' ! length (heap w)) =
            (if ld = [] then ''./logs/service_logs/'' else ld)"
    by simp_all
next
  show "CreateRequestLogger m [] w = CreateRequestLogger m ''./logs/request_logs/'' w"
    by (simp add: CreateRequestLogger_def Empty_def DefaultRequestPath_def)
next
  fix ll w' assume a: "CreateRequestLogger m ld w = Inr (ll, w')"
  have "modL (heap w' ! ll) = m
        \<and> LoggerType (heap w' ! ll) = ''request''
        \<and> logsDict (heap w' ! ll) = (if ld = [] then ''./logs/request_logs/'' else ld)"
  proof (cases "m = ModProd")
    case True
    with a show ?thesis
      by (auto simp: CreateRequestLogger_prod_eq [unfolded ModProd_def] Let_def consts_defs
          split: if_splits option.splits)
  next
    case False
    with a show ?thesis
      by (auto simp: CreateRequestLogger_dev_eq consts_defs)
  qed
  then show "modL (heap w' ! ll) = m"
    and "LoggerType (heap w' ! ll) = ''request''"
    and "logsDict (heap w' ! ll) = (if ld = [] then ''./logs/request_logs/'' else ld)"
    by simp_all
qed

lemma demo_init:
  "init demo_start =
     Inr (demo_start\<lparr>ticks := 1,
            heap := [\<lparr>slogLogger = Some (slog_New devHandler), logFile = None,
                      logsDict = ''./logs/service_logs/'', modL = ''dev'',
                      LoggerType = ''service'', today = jan15\<rparr>],
            instance_var := Some 0, slog_default := Some (slog_New devHandler)\<rparr>)"
  by (simp add: init_eq consts_defs demo_start_def Let_def)

theorem default_substitution_witness:
  "getenv demo_start ''LOGGER_MOD'' = []
   \<and> getenv demo_start ''LOGGER_TYPE'' = []
   \<and> getenv demo_start ''LOGGER_SERVICE_PATH'' = []
   \<and> init demo_start =
     Inr (demo_start\<lparr>ticks := 1,
            heap := [\<lparr>slogLogger = Some (slog_New devHandler), logFile = None,
                      logsDict = ''./logs/service_logs/'', modL = ''dev'',
                      LoggerType = ''service'', today = jan15\<rparr>],
            instance_var := Some 0, slog_default := Some (slog_New devHandler)\<rparr>)
   \<and> CreateRequestLogger ''prod'' ''/var/log/app/'' demo_start = Inr (0, demo_running)
   \<and> logsDict (heap demo_running ! 0) = ''/var/log/app/''"
  using demo_init demo_running_built
    default_substitution [of demo_start "''/var/log/app/''" "''prod''"]
  by (simp add: demo_start_def demo_running_def)

section \<open>The rotation check\<close>

text \<open>
  Claim C3. For a logger \<open>ll\<close>, one pass of the rotation loop does nothing but read the
  clock when the day of month of the stored date equals the day of month of that reading;
  when they differ it attempts a rotation: it either panics because the new file cannot be
  opened, or opens one new file, makes the handler on it the active sink and stores the
  date read after the swap. And when every clock reading from the first pass to the check
  of the next pass falls on the same day of month, the next pass opens nothing and swaps
  nothing.
\<close>

theorem watcher_rotates_iff_day_differs:
  assumes "ll < length (heap w)"
  shows "(day (today (heap w ! ll)) = day (clock w (ticks w)) \<longrightarrow>
            watcher_iter ll w = Inr (w\<lparr>ticks := ticks w + 1\<rparr>))
   \<and> (day (today (heap w ! ll)) \<noteq> day (clock w (ticks w)) \<longrightarrow>
        (\<exists>e. watcher_iter ll w = Inl (Panic e)
              \<and> open_fails (logsDict (heap w ! ll)) (clock w (ticks w + 1)) w e)
        \<or> (\<exists>w' f. watcher_iter ll w = Inr w'
              \<and> fd f = length (open_files w)
              \<and> open_files w' = open_files w @ [f]
              \<and> slogLogger (heap w' ! ll) = Some (slog_New (json_handler f))
              \<and> today (heap w' ! ll) = clock w (ticks w + 2)))
   \<and> (\<forall>w1. watcher_iter ll w = Inr w1
            \<and> (\<forall>n \<in> {ticks w .. ticks w1}. day (clock w n) = day (clock w (ticks w)))
          \<longrightarrow> watcher_iter ll w1 = Inr (w1\<lparr>ticks := ticks w1 + 1\<rparr>))"
proof (intro conjI impI allI)
  assume "day (today (heap w ! ll)) = day (clock w (ticks w))"
  then show "watcher_iter ll w = Inr (w\<lparr>ticks := ticks w + 1\<rparr>)"
    by (simp add: watcher_iter_eq)
next
  assume ne: "day (today (heap w ! ll)) \<noteq> day (clock w (ticks w))"
  let ?p = "logsDict (heap w ! ll)"
  let ?n = "?p @ DateOnly (clock w (ticks w + 1)) @ ''.txt''"
  show "(\<exists>e. watcher_iter ll w = Inl (Panic e)
              \<and> open_fails (logsDict (heap w ! ll)) (clock w (ticks w + 1)) w e)
        \<or> (\<exists>w' f. watcher_iter ll w = Inr w'
              \<and> fd f = length (open_files w)
              \<and> open_files w' = open_files w @ [f]
              \<and> slogLogger (heap w' ! ll) = Some (slog_New (json_handler f))
              \<and> today (heap w' ! ll) = clock w (ticks w + 2))"
  proof (cases "mkdir_err w ?p")
    case (Some e)
    with ne have "watcher_iter ll w = Inl (Panic e)"
      by (simp add: watcher_iter_eq Let_def)
    with Some show ?thesis by (intro disjI1 exI [of _ e]) simp
  next
    case None
    show ?thesis
    proof (cases "open_err w ?n")
      case (Some e)
      with ne None have "watcher_iter ll w = Inl (Panic e)"
        by (simp add: watcher_iter_eq Let_def)
      with None Some show ?thesis by (intro disjI1 exI [of _ e]) simp
    next
      case n2: None
      let ?f = "log_file ?n (length (open_files w))"
      let ?w' = "w\<lparr>ticks := ticks w + 3, dirs := dirs w @ [?p],
                            open_files := open_files w @ [?f],
                            heap := (heap w)[ll := (heap w ! ll)
                              \<lparr>slogLogger := Some (slog_New (json_handler ?f)),
                               today := clock w (ticks w + 2)\<rparr>]\<rparr>"
      from ne None n2 have "watcher_iter ll w = Inr ?w'"
        by (simp add: watcher_iter_eq Let_def)
      with assms show ?thesis
        by (intro disjI2 exI [of _ ?w'] exI [of _ ?f]) simp
    qed
  qed
next
  fix w1
  assume a0: "watcher_iter ll w = Inr w1
            \<and> (\<forall>n \<in> {ticks w .. ticks w1}. day (clock w n) = day (clock w (ticks w)))"
  then have a: "watcher_iter ll w = Inr w1"
    by (rule conjunct1)
  from a0 have b0: "\<forall>n \<in> {ticks w .. ticks w1}. day (clock w n) = day (clock w (ticks w))"
    by (rule conjunct2)
  have b: "day (clock w n) = day (clock w (ticks w))" if "ticks w \<le> n" and "n \<le> ticks w1" for n
    using bspec [OF b0, of n] that by (simp only: atLeastAtMost_iff simp_thms)
  show "watcher_iter ll w1 = Inr (w1\<lparr>ticks := ticks w1 + 1\<rparr>)"
  proof (cases "day (today (heap w ! ll)) = day (clock w (ticks w))")
    case True
    with a have w1: "w1 = w\<lparr>ticks := ticks w + 1\<rparr>"
      by (simp add: watcher_iter_eq)
    then have "day (clock w (ticks w + 1)) = day (clock w (ticks w))"
      using b [of "ticks w + 1"] by simp
    with True w1 show ?thesis
      by (simp add: watcher_iter_idle)
  next
    case False
    note r = watcher_iter_rotated [OF False a]
    have t: "ticks w1 = ticks w + 3" and c: "clock w1 = clock w"
      by (simp_all add: r)
    from assms have d: "today (heap w1 ! ll) = clock w (ticks w + 2)"
      by (simp add: r)
    from t have "day (clock w (ticks w + 2)) = day (clock w (ticks w))"
      and "day (clock w (ticks w + 3)) = day (clock w (ticks w))"
      using b [of "ticks w + 2"] b [of "ticks w + 3"] by simp_all
    with t c d show ?thesis
      by (simp add: watcher_iter_idle)
  qed
qed

theorem watcher_rotates_iff_day_differs_witness:
  "0 < length (heap demo_running)
   \<and> day (today (heap demo_running ! 0)) = 15
   \<and> day (clock demo_running (ticks demo_running)) = 16
   \<and> watcher_iter 0 demo_running = Inr demo_rotated
   \<and> open_files demo_rotated =
       open_files demo_running @ [log_file ''/var/log/app/2024-01-16.txt'' 1]
   \<and> day (today (heap demo_rotated ! 0)) = 16
   \<and> day (clock demo_rotated (ticks demo_rotated)) = 16
   \<and> watcher_iter 0 demo_rotated = Inr (demo_rotated\<lparr>ticks := 6\<rparr>)"
proof -
  have r: "watcher_iter 0 demo_running = Inr demo_rotated"
    by (rule demo_rotation)
  have h: "0 < length (heap demo_running)"
    by (simp add: demo_running_def)
  have same: "\<forall>n \<in> {ticks demo_running .. ticks demo_rotated}.
      day (clock demo_running n) = day (clock demo_running (ticks demo_running))"
    by (simp add: demo_running_def demo_rotated_def demo_start_def)
  from watcher_rotates_iff_day_differs [OF h] r same
  have "watcher_iter 0 demo_rotated = Inr (demo_rotated\<lparr>ticks := ticks demo_rotated + 1\<rparr>)"
    by blast
  then show ?thesis
    using r by (simp add: demo_running_def demo_rotated_def demo_start_def)
qed


section \<open>What a rotation changes\<close>

text \<open>
  A pass of the rotation loop for the logger \<open>ll\<close> leaves its mode, category, log directory
  (and its unused file field) as they were, leaves every other logger, the singleton, the
  default logger and the set of rotation goroutines untouched, and, when it rotates, makes
  the directory \<^verbatim>\<open>logsDict\<close> and opens the file named \<^verbatim>\<open>logsDict\<close> followed by the
  date.
\<close>

lemma watcher_iter_frame:
  assumes "ll < length (heap w)" and "watcher_iter ll w = Inr w'"
  shows "modL (heap w' ! ll) = modL (heap w ! ll)
    \<and> LoggerType (heap w' ! ll) = LoggerType (heap w ! ll)
    \<and> logsDict (heap w' ! ll) = logsDict (heap w ! ll)
    \<and> logFile (heap w' ! ll) = logFile (heap w ! ll)
    \<and> length (heap w') = length (heap w)
    \<and> (\<forall>a. a \<noteq> ll \<longrightarrow> heap w' ! a = heap w ! a)
    \<and> instance_var w' = instance_var w \<and> slog_default w' = slog_default w
    \<and> watchers w' = watchers w
    \<and> (if day (today (heap w ! ll)) = day (clock w (ticks w))
        then heap w' = heap w \<and> dirs w' = dirs w \<and> open_files w' = open_files w
        else dirs w' = dirs w @ [logsDict (heap w ! ll)]
           \<and> open_files w' = open_files w @
                [log_file (logsDict (heap w ! ll) @ DateOnly (clock w (ticks w + 1)) @ ''.txt'')
                   (length (open_files w))])"
proof (cases "day (today (heap w ! ll)) = day (clock w (ticks w))")
  case True
  with assms(2) have "w' = w\<lparr>ticks := ticks w + 1\<rparr>"
    by (simp add: watcher_iter_idle)
  with True show ?thesis by simp
next
  case False
  note r = watcher_iter_rotated [OF False assms(2)]
  from False assms(1) show ?thesis
    by (simp add: r)
qed


lemma demo_noslash_built:
  "CreateRequestLogger ''prod'' ''/tmp/t1'' demo_start = Inr (0, demo_noslash)"
  by (simp add: CreateRequestLogger_prod_eq [unfolded ModProd_def] demo_start_def
      demo_noslash_def DateOnly_jan15 TypeRequest_def Let_def)


text \<open>
  Claim C10. A rotation changes only the sink and the date, so that the new dated file is
  opened under the directory the instance was constructed with. The fields are indeed
  unchanged; but for the logger built with the directory \<^verbatim>\<open>/tmp/t1\<close> the rotation of
  16 January makes the directory \<^verbatim>\<open>/tmp/t1\<close> again and opens
  \<^verbatim>\<open>/tmp/t12024-01-16.txt\<close>, a file beside that directory and not under it: the name is
  built by the same \<^verbatim>\<open>openLogFile\<close> as in claim C2.
\<close>

theorem rotation_opens_beside_directory:
  "CreateRequestLogger ''prod'' ''/tmp/t1'' demo_start = Inr (0, demo_noslash)
   \<and> logsDict (heap demo_noslash ! 0) = ''/tmp/t1''
   \<and> watcher_iter 0 demo_noslash =
     Inr (demo_noslash\<lparr>ticks := 5, dirs := [''/tmp/t1'', ''/tmp/t1''],
            open_files := [log_file ''/tmp/t12024-01-15.txt'' 0,
                           log_file ''/tmp/t12024-01-16.txt'' 1],
            heap := [\<lparr>slogLogger =
                        Some (slog_New (json_handler (log_file ''/tmp/t12024-01-16.txt'' 1))),
                      logFile = None, logsDict = ''/tmp/t1'', modL = ''prod'',
                      LoggerType = ''request'', today = jan16\<rparr>]\<rparr>)"
  using demo_noslash_built
  by (simp add: watcher_iter_eq demo_noslash_def demo_start_def Let_def DateOnly_jan16)


section \<open>The sink after construction\<close>

lemma init_sink:
  assumes "init w = Inr w'"
  shows "sink_ready w w' (length (heap w))"
proof (cases "(if getenv w ''LOGGER_MOD'' = [] then DefaultMod else getenv w ''LOGGER_MOD'') = ModProd")
  case True
  with assms show ?thesis
    by (simp add: init_eq Let_def split: option.splits if_splits) auto
next
  case False
  with assms show ?thesis
    by (simp add: init_eq Let_def split: option.splits if_splits) auto
qed

lemma CreateProdLogger_sink:
  assumes "CreateProdLogger ld w = Inr w'"
  shows "sink_ready w w' (length (heap w))"
  using assms by (simp add: CreateProdLogger_eq Let_def split: option.splits if_splits) auto

lemma CreateDevLogger_sink: "sink_ready w (CreateDevLogger w) (length (heap w))"
  by (simp add: CreateDevLogger_eq consts_defs)

lemma CreateRequestLogger_sink:
  assumes "CreateRequestLogger m ld w = Inr (ll, w')"
  shows "sink_ready w w' ll"
proof (cases "m = ModProd")
  case True
  with assms show ?thesis
    by (simp add: CreateRequestLogger_prod_eq Let_def split: option.splits if_splits) auto
next
  case False
  with assms show ?thesis
    by (auto simp: CreateRequestLogger_dev_eq)
qed

text \<open>
  Claim C1 says that every construction yields an active sink and, in production mode, an
  instance holding the open handle of \<^verbatim>\<open><path>/<today>.txt\<close>. In production mode on a
  file system where everything succeeds, the instance's \<^verbatim>\<open>logFile\<close> field is nil
  after construction (nothing ever assigns it); and where the directory cannot be made,
  construction panics and yields no sink at all.
\<close>

theorem construction_without_file_field:
  "CreateRequestLogger ''prod'' ''/var/log/app/'' demo_start = Inr (0, demo_running)
   \<and> logFile (heap demo_running ! 0) = None
   \<and> mkdir_err demo_readonly ''/var/log/app/'' = Some ''read-only file system''
   \<and> CreateRequestLogger ''prod'' ''/var/log/app/'' demo_readonly =
       Inl (Panic ''read-only file system'')"
proof -
  have "CreateRequestLogger ''prod'' ''/var/log/app/'' demo_readonly =
       Inl (Panic ''read-only file system'')"
    by (simp add: CreateRequestLogger_prod_eq [unfolded ModProd_def] demo_readonly_def Let_def)
  then show ?thesis
    using demo_running_built by (simp add: demo_running_def demo_readonly_def)
qed


text \<open>
  Claim C1, as the code has it. Each of \<^verbatim>\<open>init\<close>, \<^verbatim>\<open>CreateProdLogger\<close>,
  \<^verbatim>\<open>CreateDevLogger\<close> and \<^verbatim>\<open>CreateRequestLogger\<close>, when it returns, leaves a logger
  that is \<open>sink_ready\<close>: the sink is set, in production mode it writes to standard output
  and to one newly opened append-mode file which, for a log directory ending with
  \<^verbatim>\<open>/\<close>, is \<^verbatim>\<open><directory>/<date>.txt\<close> for the date read when the file is opened;
  the handle lives in the sink's writer and the \<^verbatim>\<open>logFile\<close> field stays nil. Each
  constructor returns whenever the mode is not production or the directory can be made and
  the file opened.
\<close>

theorem construction_sink:
  "(\<forall>w'. init w = Inr w' \<longrightarrow> sink_ready w w' (length (heap w)))
   \<and> (\<forall>w'. CreateProdLogger ld w = Inr w' \<longrightarrow> sink_ready w w' (length (heap w)))
   \<and> sink_ready w (CreateDevLogger w) (length (heap w))
   \<and> (\<forall>ll w'. CreateRequestLogger m ld w = Inr (ll, w') \<longrightarrow> sink_ready w w' ll)
   \<and> ((getenv w ''LOGGER_MOD'' = ModProd \<longrightarrow>
         open_ok (if getenv w ''LOGGER_SERVICE_PATH'' = [] then DefaultServicePath
                  else getenv w ''LOGGER_SERVICE_PATH'') (clock w (ticks w + 1)) w)
        \<longrightarrow> (\<exists>w'. init w = Inr w'))
   \<and> (open_ok (if ld = [] then DefaultServicePath else ld) (clock w (ticks w + 1)) w
        \<longrightarrow> (\<exists>w'. CreateProdLogger ld w = Inr w'))
   \<and> ((m = ModProd \<longrightarrow>
         open_ok (if ld = [] then DefaultRequestPath else ld) (clock w (ticks w + 1)) w)
        \<longrightarrow> (\<exists>ll w'. CreateRequestLogger m ld w = Inr (ll, w')))"
proof -
  have 1: "\<forall>w'. init w = Inr w' \<longrightarrow> sink_ready w w' (length (heap w))"
    using init_sink by blast
  have 2: "\<forall>w'. CreateProdLogger ld w = Inr w' \<longrightarrow> sink_ready w w' (length (heap w))"
    using CreateProdLogger_sink by blast
  have 3: "sink_ready w (CreateDevLogger w) (length (heap w))"
    by (rule CreateDevLogger_sink)
  have 4: "\<forall>ll w'. CreateRequestLogger m ld w = Inr (ll, w') \<longrightarrow> sink_ready w w' ll"
    using CreateRequestLogger_sink by blast
  have 5: "(getenv w ''LOGGER_MOD'' = ModProd \<longrightarrow>
         open_ok (if getenv w ''LOGGER_SERVICE_PATH'' = [] then DefaultServicePath
                  else getenv w ''LOGGER_SERVICE_PATH'') (clock w (ticks w + 1)) w)
        \<longrightarrow> (\<exists>w'. init w = Inr w')"
    by (simp add: init_eq Let_def consts_defs)
  have 6: "open_ok (if ld = [] then DefaultServicePath else ld) (clock w (ticks w + 1)) w
        \<longrightarrow> (\<exists>w'. CreateProdLogger ld w = Inr w')"
    by (simp add: CreateProdLogger_eq Let_def)
  have 7: "(m = ModProd \<longrightarrow>
         open_ok (if ld = [] then DefaultRequestPath else ld) (clock w (ticks w + 1)) w)
        \<longrightarrow> (\<exists>ll w'. CreateRequestLogger m ld w = Inr (ll, w'))"
    by (cases "m = ModProd")
      (simp_all add: CreateRequestLogger_prod_eq CreateRequestLogger_dev_eq Let_def)
  show ?thesis
    by (rule conjI [OF 1 conjI [OF 2 conjI [OF 3 conjI [OF 4 conjI [OF 5 conjI [OF 6 7]]]]]])
qed

theorem construction_sink_witness:
  "mkdir_err demo_start ''/var/log/app/'' = None
   \<and> open_err demo_start ''/var/log/app/2024-01-15.txt'' = None
   \<and> CreateRequestLogger ''prod'' ''/var/log/app/'' demo_start = Inr (0, demo_running)
   \<and> modL (heap demo_running ! 0) = ''prod''
   \<and> slogLogger (heap demo_running ! 0) =
       Some (slog_New (json_handler (log_file ''/var/log/app/2024-01-15.txt'' 0)))
   \<and> open_files demo_running =
       open_files demo_start @ [log_file ''/var/log/app/2024-01-15.txt'' 0]
   \<and> logsDict (heap demo_running ! 0) = ''/var/log/app'' @ ''/''
   \<and> DateOnly (clock demo_start (ticks demo_start + 1)) = ''2024-01-15''"
  using demo_running_built
    construction_sink [where w = demo_start and m = "''prod''" and ld = "''/var/log/app/''"]
  by (simp add: demo_running_def demo_start_def DateOnly_jan15)

section \<open>Who has a rotation goroutine\<close>

lemma inv_alloc:
  assumes "watchers_inv w" and "heap w' = heap w @ [l]"
    and "watchers w' = (if modL l = ModProd then watchers w @ [length (heap w)] else watchers w)"
  shows "watchers_inv w' \<and> untouched w w'"
proof -
  have "watchers_inv w'"
    using assms unfolding watchers_inv_def
    by (auto simp: nth_append less_Suc_eq)
  moreover have "untouched w w'"
    using assms unfolding untouched_def watchers_inv_def
    by (auto simp: nth_append)
  ultimately show ?thesis by simp
qed

lemma inv_update:
  assumes "watchers_inv w" and "heap w' = (heap w)[ll := l]"
    and "modL l = modL (heap w ! ll)" and "watchers w' = watchers w"
    and "ll \<in> set (watchers w)"
  shows "watchers_inv w' \<and> untouched w w'"
proof -
  have "watchers_inv w'"
    using assms unfolding watchers_inv_def
    by (auto simp: nth_list_update)
  moreover have "untouched w w'"
    unfolding untouched_def
  proof (intro conjI allI impI)
    show "length (heap w) \<le> length (heap w')"
      by (simp add: assms(2))
  next
    fix a assume a: "a < length (heap w)" "a \<notin> set (watchers w)"
    with assms(5) have "a \<noteq> ll" by blast
    then show "heap w' ! a = heap w ! a"
      by (simp add: assms(2))
    from a show "a \<notin> set (watchers w')"
      by (simp add: assms(4))
  qed
  ultimately show ?thesis by simp
qed

lemma inv_same:
  assumes "watchers_inv w" and "heap w' = heap w" and "watchers w' = watchers w"
  shows "watchers_inv w' \<and> untouched w w'"
  using assms unfolding watchers_inv_def untouched_def by simp

lemma step_inv:
  assumes "step w w'" and "watchers_inv w"
  shows "watchers_inv w' \<and> untouched w w'"
  using assms(1)
proof cases
  case (step_prod ld)
  then obtain l where h: "heap w' = heap w @ [l]" and m: "modL l = ModProd"
    and ws: "watchers w' = watchers w @ [length (heap w)]"
    by (auto simp: CreateProdLogger_eq Let_def split: option.splits)
  show ?thesis by (rule inv_alloc [OF assms(2) h]) (simp add: m ws)
next
  case step_dev
  have h: "heap w' = heap w @ [\<lparr>slogLogger = Some (slog_New devHandler), logFile = None,
                          logsDict = [], modL = ModDev, LoggerType = DefaultType,
                          today = clock w (ticks w)\<rparr>]" and ws: "watchers w' = watchers w"
    by (simp_all add: step_dev CreateDevLogger_eq)
  show ?thesis by (rule inv_alloc [OF assms(2) h]) (simp add: ws ModDev_def ModProd_def)
next
  case (step_request m ld ll)
  show ?thesis
  proof (cases "m = ModProd")
    case True
    with step_request obtain l where h: "heap w' = heap w @ [l]" and m: "modL l = ModProd"
      and ws: "watchers w' = watchers w @ [length (heap w)]"
      by (auto simp: CreateRequestLogger_prod_eq Let_def split: option.splits)
    show ?thesis by (rule inv_alloc [OF assms(2) h]) (simp add: m ws)
  next
    case False
    with step_request obtain l where h: "heap w' = heap w @ [l]" and m: "modL l = m"
      and ws: "watchers w' = watchers w"
      by (auto simp: CreateRequestLogger_dev_eq)
    show ?thesis by (rule inv_alloc [OF assms(2) h]) (simp add: m ws False)
  qed
next
  case (step_watcher ll)
  show ?thesis
  proof (cases "day (today (heap w ! ll)) = day (clock w (ticks w))")
    case True
    with step_watcher have "w' = w\<lparr>ticks := ticks w + 1\<rparr>"
      by (simp add: watcher_iter_idle)
    with assms(2) show ?thesis by (intro inv_same) simp_all
  next
    case False
    let ?l = "(heap w ! ll)
          \<lparr>slogLogger := Some (slog_New (json_handler
             (log_file (logsDict (heap w ! ll) @ DateOnly (clock w (ticks w + 1)) @ ''.txt'')
                (length (open_files w))))),
           today := clock w (ticks w + 2)\<rparr>"
    note r = watcher_iter_rotated [OF False step_watcher(2)]
    have h: "heap w' = (heap w)[ll := ?l]" and ws: "watchers w' = watchers w"
      by (simp_all add: r)
    have m: "modL ?l = modL (heap w ! ll)"
      by simp
    show ?thesis
      by (rule inv_update [OF assms(2) h m ws step_watcher(1)])
  qed
qed

lemma init_inv:
  assumes "process_start w0" and "init w0 = Inr w"
  shows "watchers_inv w"
proof -
  from assms(1) have "watchers_inv w0"
    by (simp add: process_start_def watchers_inv_def)
  moreover from assms(2) obtain l where "heap w = heap w0 @ [l]"
    "watchers w = (if modL l = ModProd then watchers w0 @ [length (heap w0)] else watchers w0)"
    by (auto simp: init_eq Let_def split: option.splits if_splits)
  ultimately show ?thesis
    by (simp add: inv_alloc)
qed

lemma reachable_inv: "reachable w \<Longrightarrow> watchers_inv w"
  by (induction rule: reachable.induct) (auto simp: init_inv step_inv)

lemma steps_inv:
  assumes "rtranclp step w w'" and "watchers_inv w"
  shows "watchers_inv w' \<and> untouched w w'"
  using assms
proof (induction rule: rtranclp_induct)
  case base
  then show ?case by (simp add: untouched_def)
next
  case (step y z)
  then have y: "watchers_inv y" "untouched w y" by simp_all
  from step_inv [OF step.hyps(2) y(1)] have z: "watchers_inv z" "untouched y z" by simp_all
  from y(2) z(2) have "untouched w z"
    unfolding untouched_def by (metis (no_types, lifting) le_trans less_le_trans)
  with z(1) show ?case by simp
qed


lemma demo_dev_init: "init demo_start = Inr demo_dev"
  using demo_init by (simp add: demo_dev_def)

lemma demo_two_built:
  "CreateRequestLogger ''prod'' ''/var/log/app/'' demo_dev = Inr (1, demo_two)"
  by (simp add: CreateRequestLogger_prod_eq [unfolded ModProd_def] demo_start_def demo_dev_def
      demo_two_def DateOnly_jan16 TypeRequest_def Let_def)


text \<open>
  Claim C8. In every state the process can reach (after \<^verbatim>\<open>init\<close>, by calls of the
  three constructors and passes of started rotation goroutines), a logger has a rotation
  goroutine if and only if its mode is production; and a logger whose mode is not
  production never gets one and is never changed: whatever happens afterwards, its sink
  and every other field stay as they are.
\<close>

theorem watcher_iff_production:
  assumes "reachable w" and "a < length (heap w)"
  shows "(a \<in> set (watchers w) \<longleftrightarrow> modL (heap w ! a) = ModProd)
    \<and> (modL (heap w ! a) \<noteq> ModProd \<longrightarrow>
         (\<forall>w'. rtranclp step w w' \<longrightarrow> a \<notin> set (watchers w') \<and> heap w' ! a = heap w ! a))"
proof -
  have i: "watchers_inv w" using assms(1) by (rule reachable_inv)
  with assms(2) have 1: "a \<in> set (watchers w) \<longleftrightarrow> modL (heap w ! a) = ModProd"
    by (simp add: watchers_inv_def)
  have 2: "a \<notin> set (watchers w') \<and> heap w' ! a = heap w ! a"
    if "modL (heap w ! a) \<noteq> ModProd" and "rtranclp step w w'" for w'
  proof -
    from steps_inv [OF that(2) i] have "untouched w w'" by simp
    moreover from 1 that(1) have "a \<notin> set (watchers w)" by simp
    ultimately show ?thesis using assms(2) by (simp add: untouched_def)
  qed
  from 1 2 show ?thesis by blast
qed

theorem watcher_iff_production_witness:
  "process_start demo_start
   \<and> init demo_start = Inr demo_dev
   \<and> CreateRequestLogger ''prod'' ''/var/log/app/'' demo_dev = Inr (1, demo_two)
   \<and> length (heap demo_two) = 2
   \<and> modL (heap demo_two ! 0) = ''dev'' \<and> 0 \<notin> set (watchers demo_two)
   \<and> modL (heap demo_two ! 1) = ''prod'' \<and> 1 \<in> set (watchers demo_two)
   \<and> 0 \<notin> set (watchers (CreateDevLogger demo_two))
   \<and> heap (CreateDevLogger demo_two) ! 0 = heap demo_two ! 0"
proof -
  have ps: "process_start demo_start"
    by (simp add: process_start_def demo_start_def)
  have r: "reachable demo_two"
    by (rule reach_step [OF reach_init [OF ps demo_dev_init] step_request [OF demo_two_built]])
  have l: "length (heap demo_two) = 2"
    by (simp add: demo_two_def)
  have s: "rtranclp step demo_two (CreateDevLogger demo_two)"
    by (rule r_into_rtranclp) (rule step_dev)
  have m0: "modL (heap demo_two ! 0) = ''dev''" and m1: "modL (heap demo_two ! 1) = ''prod''"
    by (simp_all add: demo_two_def)
  have l0: "0 < length (heap demo_two)" and l1: "1 < length (heap demo_two)"
    by (simp_all add: l)
  have n0: "modL (heap demo_two ! 0) \<noteq> ModProd"
    by (simp add: m0 ModProd_def)
  from watcher_iff_production [OF r l0] n0 s
  have a: "0 \<notin> set (watchers demo_two)"
    and b: "0 \<notin> set (watchers (CreateDevLogger demo_two))
      \<and> heap (CreateDevLogger demo_two) ! 0 = heap demo_two ! 0"
    by blast+
  from watcher_iff_production [OF r l1] m1 have c: "1 \<in> set (watchers demo_two)"
    by (simp only: ModProd_def simp_thms)
  from ps demo_dev_init demo_two_built l m0 a m1 c b show ?thesis
    by (simp only: simp_thms)
qed

section \<open>The swap\<close>

lemma pass_inv_start: "ll < length (heap w) \<Longrightarrow> pass_inv ll w (pass_start w)"
  by (simp add: pass_inv_def pass_start_def)

lemma ran_against_same:
  assumes "slogLogger (heap w'' ! ll) = slogLogger (heap w' ! ll)"
    and "today (heap w'' ! ll) = today (heap w' ! ll)"
  shows "ran_against ll w w'' x = ran_against ll w w' x"
  using assms by (simp add: ran_against_def sink_and_date_def)

lemma ran_against_swap:
  assumes "slogLogger (heap w' ! ll) = slogLogger (heap w ! ll)"
    and "today (heap w' ! ll) = today (heap w ! ll)"
    and "ran_against ll w w' x"
  shows "ran_against ll w w'' x"
  using assms by (auto simp: ran_against_def sink_and_date_def)

lemma ran_against_date:
  assumes "slogLogger (heap w'' ! ll) = slogLogger (heap w' ! ll)"
    and "today (heap w' ! ll) = today (heap w ! ll)"
    and "ran_against ll w w' x"
  shows "ran_against ll w w'' x"
  using assms by (auto simp: ran_against_def sink_and_date_def)


lemma pass_inv_frame:
  assumes "pass_inv ll w c"
    and "ll < length (heap (shared c'))"
    and "slogLogger (heap (shared c') ! ll) = slogLogger (heap (shared c) ! ll)"
    and "today (heap (shared c') ! ll) = today (heap (shared c) ! ll)"
    and "emits c' = emits c"
    and "wlocked c' \<longleftrightarrow> in_write_section (wpc c')"
    and "rlocks c' = (if in_read_section (wpc c') then 1 else 0)"
    and "before_swap (wpc c') \<longrightarrow> before_swap (wpc c)"
    and "before_date (wpc c') \<longrightarrow> before_date (wpc c)"
  shows "pass_inv ll w c'"
  using assms unfolding pass_inv_def
  by (simp add: ran_against_same [of "shared c'" ll "shared c"])

lemma emit_step_inv:
  assumes "pass_inv ll w c" and "emit_step ll g c = Some c'"
  shows "pass_inv ll w c'"
proof (cases "slogLogger (heap (shared c) ! ll)")
  case None
  with assms(2) have "c' = c\<lparr>crashed := Some (Panic ''nil pointer dereference'')\<rparr>"
    by (simp add: emit_step_def)
  with assms(1) show ?thesis
    by (intro pass_inv_frame [OF assms(1)]) (simp_all add: pass_inv_def)
next
  case (Some s)
  let ?w1 = "(shared c)\<lparr>ticks := ticks (shared c) + 1\<rparr>"
  from Some assms(2)
  have c': "c' = c\<lparr>shared := ?w1, emits := emits c @ [(g, s, today (heap (shared c) ! ll))]\<rparr>"
    by (simp add: emit_step_def time_Now_def)
  have same: "ran_against ll w ((shared c)\<lparr>ticks := t\<rparr>) x = ran_against ll w (shared c) x"
    for x t
    by (rule ran_against_same) simp_all
  have new: "ran_against ll w (shared c) (s, today (heap (shared c) ! ll))"
    using Some by (simp add: ran_against_def sink_and_date_def)
  from assms(1) show ?thesis
    unfolding pass_inv_def c' by (simp add: same new)
qed

lemma watcher_step_inv:
  assumes "pass_inv ll w c" and "watcher_step ll c = Some c'"
  shows "pass_inv ll w c'"
proof (cases "wpc c")
  case W_rlock
  with assms(2) have "\<not> wlocked c" and "c' = c\<lparr>rlocks := rlocks c + 1, wpc := W_check\<rparr>"
    by (simp_all add: watcher_step_def split: if_splits)
  with assms(1) W_rlock show ?thesis
    by (intro pass_inv_frame [OF assms(1)]) (simp_all add: pass_inv_def)
next
  case W_check
  with assms(2)
  have "c' = c\<lparr>shared := (shared c)\<lparr>ticks := ticks (shared c) + 1\<rparr>,
          wpc := W_runlock (day (today (heap (shared c) ! ll))
                   \<noteq> day (clock (shared c) (ticks (shared c))))\<rparr>"
    by (simp add: watcher_step_def shouldRotate_def time_Now_def)
  with assms(1) W_check show ?thesis
    by (intro pass_inv_frame [OF assms(1)]) (simp_all add: pass_inv_def)
next
  case (W_runlock rot)
  with assms(2)
  have "c' = c\<lparr>rlocks := rlocks c - 1, wpc := (if rot then W_open else W_sleep)\<rparr>"
    by (simp add: watcher_step_def)
  with assms(1) W_runlock show ?thesis
    by (intro pass_inv_frame [OF assms(1)]) (simp_all add: pass_inv_def)
next
  case W_open
  show ?thesis
  proof (cases "prodHandler (logsDict (heap (shared c) ! ll)) (shared c)")
    case (Inl p)
    with assms(2) W_open have "c' = c\<lparr>crashed := Some p\<rparr>"
      by (simp add: watcher_step_def)
    with assms(1) show ?thesis
      by (intro pass_inv_frame [OF assms(1)]) (simp_all add: pass_inv_def)
  next
    case (Inr r)
    obtain h w2 where r: "r = (h, w2)" by (cases r)
    with Inr assms(2) W_open have c': "c' = c\<lparr>shared := w2, wpc := W_lock1 h\<rparr>"
      by (simp add: watcher_step_def)
    from Inr r have "heap w2 = heap (shared c)"
      by (auto simp: prodHandler_eq split: option.splits)
    with assms(1) W_open c' show ?thesis
      by (intro pass_inv_frame [OF assms(1)]) (simp_all add: pass_inv_def)
  qed
next
  case (W_lock1 h)
  with assms(2) have "c' = c\<lparr>wlocked := True, wpc := W_set h\<rparr>"
    by (simp add: watcher_step_def split: if_splits)
  with assms(1) W_lock1 show ?thesis
    by (intro pass_inv_frame [OF assms(1)]) (simp_all add: pass_inv_def)
next
  case (W_set h)
  let ?w1 = "setLogger ll (slog_New h) (shared c)"
  from W_set assms(2) have c': "c' = c\<lparr>shared := ?w1, wpc := W_unlock1\<rparr>"
    by (simp add: watcher_step_def)
  from assms(1) W_set have l: "ll < length (heap (shared c))"
    and s: "slogLogger (heap (shared c) ! ll) = slogLogger (heap w ! ll)"
    and d: "today (heap (shared c) ! ll) = today (heap w ! ll)"
    and wl: "wlocked c" and rl: "rlocks c = 0"
    and e: "\<forall>e \<in> set (emits c). ran_against ll w (shared c) (snd e)"
    by (simp_all add: pass_inv_def)
  from l have d': "today (heap ?w1 ! ll) = today (heap (shared c) ! ll)"
    by (simp add: setLogger_def)
  have e': "\<forall>e \<in> set (emits c). ran_against ll w ?w1 (snd e)"
    using e ran_against_swap [OF s d] by blast
  from l wl rl d d' e' show ?thesis
    unfolding pass_inv_def c' by (simp add: setLogger_def)
next
  case W_unlock1
  with assms(2) have "c' = c\<lparr>wlocked := False, wpc := W_lock2\<rparr>"
    by (simp add: watcher_step_def)
  with assms(1) W_unlock1 show ?thesis
    by (intro pass_inv_frame [OF assms(1)]) (simp_all add: pass_inv_def)
next
  case W_lock2
  with assms(2) have "c' = c\<lparr>wlocked := True, wpc := W_date\<rparr>"
    by (simp add: watcher_step_def split: if_splits)
  with assms(1) W_lock2 show ?thesis
    by (intro pass_inv_frame [OF assms(1)]) (simp_all add: pass_inv_def)
next
  case W_date
  let ?w1 = "set_today ll (shared c)"
  from W_date assms(2) have c': "c' = c\<lparr>shared := ?w1, wpc := W_unlock2\<rparr>"
    by (simp add: watcher_step_def)
  from assms(1) W_date have l: "ll < length (heap (shared c))"
    and d: "today (heap (shared c) ! ll) = today (heap w ! ll)"
    and wl: "wlocked c" and rl: "rlocks c = 0"
    and e: "\<forall>e \<in> set (emits c). ran_against ll w (shared c) (snd e)"
    by (simp_all add: pass_inv_def)
  from l have s': "slogLogger (heap ?w1 ! ll) = slogLogger (heap (shared c) ! ll)"
    and l': "ll < length (heap ?w1)"
    by (simp_all add: set_today_def time_Now_def)
  have e': "\<forall>e \<in> set (emits c). ran_against ll w ?w1 (snd e)"
    using e ran_against_date [OF s' d] by blast
  from l' wl rl e' show ?thesis
    unfolding pass_inv_def c' by simp
next
  case W_unlock2
  with assms(2) have "c' = c\<lparr>wlocked := False, wpc := W_sleep\<rparr>"
    by (simp add: watcher_step_def)
  with assms(1) W_unlock2 show ?thesis
    by (intro pass_inv_frame [OF assms(1)]) (simp_all add: pass_inv_def)
next
  case W_sleep
  with assms(2) show ?thesis
    by (simp add: watcher_step_def)
qed

lemma exec_inv:
  assumes "pass_inv ll w c" and "exec ll a c = Some c'"
  shows "pass_inv ll w c'"
proof (cases a)
  case Watcher
  with assms(2) have "watcher_step ll c = Some c'"
    by (simp add: exec_def split: if_splits)
  with assms(1) show ?thesis by (rule watcher_step_inv)
next
  case (Emit g)
  with assms(2) have "emit_step ll g c = Some c'"
    by (simp add: exec_def split: if_splits)
  with assms(1) show ?thesis by (rule emit_step_inv)
qed

lemma run_inv:
  assumes "pass_inv ll w c" and "run ll sched c = Some c'"
  shows "pass_inv ll w c'"
  using assms
proof (induction sched arbitrary: c)
  case Nil
  then show ?case by simp
next
  case (Cons a sched)
  from Cons.prems(2) obtain c1 where 1: "exec ll a c = Some c1" and 2: "run ll sched c1 = Some c'"
    by (simp split: option.splits)
  from Cons.IH [OF exec_inv [OF Cons.prems(1) 1] 2] show ?case .
qed

lemma emit_step_fields:
  assumes "emit_step ll g c = Some c'"
  shows "sink_and_date ll (shared c') = sink_and_date ll (shared c)"
  using assms
  by (cases "slogLogger (heap (shared c) ! ll)")
    (auto simp: emit_step_def time_Now_def sink_and_date_def)

lemma watcher_step_fields:
  assumes "pass_inv ll w c" and "watcher_step ll c = Some c'"
  shows "sink_and_date ll (shared c') = sink_and_date ll (shared c)
    \<or> (wlocked c \<and> wlocked c'
        \<and> (slogLogger (heap (shared c') ! ll) = slogLogger (heap (shared c) ! ll)
            \<or> today (heap (shared c') ! ll) = today (heap (shared c) ! ll)))"
proof (cases "wpc c")
  case W_rlock
  with assms(2) show ?thesis
    by (auto simp: watcher_step_def split: if_splits)
next
  case W_check
  with assms(2) show ?thesis
    by (auto simp: watcher_step_def shouldRotate_def time_Now_def sink_and_date_def)
next
  case (W_runlock rot)
  with assms(2) show ?thesis
    by (auto simp: watcher_step_def)
next
  case W_open
  with assms(2) show ?thesis
    by (auto simp: watcher_step_def prodHandler_eq sink_and_date_def
        split: option.splits sum.splits)
next
  case (W_lock1 h)
  with assms(2) show ?thesis
    by (auto simp: watcher_step_def split: if_splits)
next
  case (W_set h)
  with assms(1) have "wlocked c" and l: "ll < length (heap (shared c))"
    by (simp_all add: pass_inv_def)
  moreover from W_set assms(2)
  have "c' = c\<lparr>shared := setLogger ll (slog_New h) (shared c), wpc := W_unlock1\<rparr>"
    by (simp add: watcher_step_def)
  ultimately show ?thesis
    by (simp add: setLogger_def)
next
  case W_unlock1
  with assms(2) show ?thesis
    by (auto simp: watcher_step_def)
next
  case W_lock2
  with assms(2) show ?thesis
    by (auto simp: watcher_step_def split: if_splits)
next
  case W_date
  with assms(1) have "wlocked c" and l: "ll < length (heap (shared c))"
    by (simp_all add: pass_inv_def)
  moreover from W_date assms(2)
  have "c' = c\<lparr>shared := set_today ll (shared c), wpc := W_unlock2\<rparr>"
    by (simp add: watcher_step_def)
  ultimately show ?thesis
    by (simp add: set_today_def time_Now_def)
next
  case W_unlock2
  with assms(2) show ?thesis
    by (auto simp: watcher_step_def)
next
  case W_sleep
  with assms(2) show ?thesis
    by (simp add: watcher_step_def)
qed

lemma exec_fields:
  assumes "pass_inv ll w c" and "exec ll a c = Some c'"
  shows "sink_and_date ll (shared c') = sink_and_date ll (shared c)
    \<or> (a = Watcher \<and> wlocked c \<and> wlocked c'
        \<and> (slogLogger (heap (shared c') ! ll) = slogLogger (heap (shared c) ! ll)
            \<or> today (heap (shared c') ! ll) = today (heap (shared c) ! ll)))"
proof (cases a)
  case Watcher
  with assms(2) have "watcher_step ll c = Some c'"
    by (simp add: exec_def split: if_splits)
  from watcher_step_fields [OF assms(1) this] Watcher show ?thesis by blast
next
  case (Emit g)
  with assms(2) have "emit_step ll g c = Some c'"
    by (simp add: exec_def split: if_splits)
  then show ?thesis by (simp add: emit_step_fields)
qed

lemma run_append:
  "run ll (xs @ ys) c = (case run ll xs c of None \<Rightarrow> None | Some c' \<Rightarrow> run ll ys c')"
  by (induction xs arbitrary: c) (simp_all split: option.splits)

text \<open>
  The rotation goroutine running alone does what \<open>watcher_iter\<close> does; after seven
  statements of a pass that rotates it is between its two write sections.
\<close>

lemma run_to_gap:
  assumes "day (today (heap w ! ll)) \<noteq> day (clock w (ticks w))"
    and "watcher_iter ll w = Inr w'" and "ll < length (heap w)"
  shows "run ll [Watcher, Watcher, Watcher, Watcher, Watcher, Watcher, Watcher] (pass_start w) =
     Some \<lparr>shared = w\<lparr>ticks := ticks w + 2, dirs := dirs w', open_files := open_files w',
                heap := (heap w)[ll := (heap w ! ll)\<lparr>slogLogger := slogLogger (heap w' ! ll)\<rparr>]\<rparr>,
           wlocked = False, rlocks = 0, wpc = W_lock2, emits = [], crashed = None\<rparr>"
proof -
  note r = watcher_iter_rotated [OF assms(1,2)]
  from assms(1,2) have ok: "mkdir_err w (logsDict (heap w ! ll)) = None"
    "open_err w (logsDict (heap w ! ll) @ DateOnly (clock w (Suc (ticks w))) @ ''.txt'') = None"
    by (simp_all add: watcher_iter_eq Let_def split: option.splits)
  show ?thesis
    using assms(1,3) ok
    by (simp add: r pass_start_def exec_def watcher_step_def shouldRotate_def time_Now_def
        prodHandler_eq setLogger_def)
qed

lemma run_pass:
  assumes "day (today (heap w ! ll)) \<noteq> day (clock w (ticks w))"
    and "watcher_iter ll w = Inr w'" and "ll < length (heap w)"
  shows "run ll [Watcher, Watcher, Watcher, Watcher, Watcher, Watcher, Watcher, Watcher,
                 Watcher, Watcher] (pass_start w) =
     Some \<lparr>shared = w', wlocked = False, rlocks = 0, wpc = W_sleep, emits = [], crashed = None\<rparr>"
proof -
  note r = watcher_iter_rotated [OF assms(1,2)]
  from assms(1,2) have ok: "mkdir_err w (logsDict (heap w ! ll)) = None"
    "open_err w (logsDict (heap w ! ll) @ DateOnly (clock w (Suc (ticks w))) @ ''.txt'') = None"
    by (simp_all add: watcher_iter_eq Let_def split: option.splits)
  show ?thesis
    using assms(1,3) ok
    by (simp add: r pass_start_def exec_def watcher_step_def shouldRotate_def time_Now_def
        prodHandler_eq setLogger_def set_today_def)
qed

lemma run_idle:
  assumes "day (today (heap w ! ll)) = day (clock w (ticks w))"
  shows "run ll [Watcher, Watcher, Watcher] (pass_start w) =
     Some \<lparr>shared = w\<lparr>ticks := ticks w + 1\<rparr>, wlocked = False, rlocks = 0, wpc = W_sleep,
           emits = [], crashed = None\<rparr>"
  using assms
  by (simp add: pass_start_def exec_def watcher_step_def shouldRotate_def time_Now_def)

text \<open>
  Claim C4 says that a rotation replaces sink and date in one atomic swap, so that every
  emit finds the old sink with the old date or the new sink with the new date. In the
  state \<open>demo_running\<close>, let the rotation goroutine run until \<^verbatim>\<open>setLogger\<close> has
  returned and the second \<^verbatim>\<open>Lock\<close> is not yet taken (seven statements), and let
  goroutine 7 log then: no lock is held, and the record goes through the new sink, on the
  file of 16 January, while the instance still stores 15 January. That is neither the
  state before the pass nor the state after it.
\<close>

theorem emit_between_the_writes:
  "sink_and_date 0 demo_running =
     (Some (slog_New (json_handler (log_file ''/var/log/app/2024-01-15.txt'' 0))), jan15)
   \<and> watcher_iter 0 demo_running = Inr demo_rotated
   \<and> sink_and_date 0 demo_rotated =
     (Some (slog_New (json_handler (log_file ''/var/log/app/2024-01-16.txt'' 1))), jan16)
   \<and> run 0 [Watcher, Watcher, Watcher, Watcher, Watcher, Watcher, Watcher, Emit 7]
        (pass_start demo_running) =
     Some \<lparr>shared =
             demo_running\<lparr>ticks := 5, dirs := [''/var/log/app/'', ''/var/log/app/''],
               open_files := [log_file ''/var/log/app/2024-01-15.txt'' 0,
                              log_file ''/var/log/app/2024-01-16.txt'' 1],
               heap := [\<lparr>slogLogger =
                           Some (slog_New (json_handler
                             (log_file ''/var/log/app/2024-01-16.txt'' 1))),
                         logFile = None, logsDict = ''/var/log/app/'', modL = ''prod'',
                         LoggerType = ''request'', today = jan15\<rparr>]\<rparr>,
           wlocked = False, rlocks = 0, wpc = W_lock2,
           emits = [(7, slog_New (json_handler (log_file ''/var/log/app/2024-01-16.txt'' 1)),
                     jan15)],
           crashed = None\<rparr>"
proof -
  have "sink_and_date 0 demo_running =
     (Some (slog_New (json_handler (log_file ''/var/log/app/2024-01-15.txt'' 0))), jan15)"
    by (simp add: sink_and_date_def demo_running_def)
  moreover have "sink_and_date 0 demo_rotated =
     (Some (slog_New (json_handler (log_file ''/var/log/app/2024-01-16.txt'' 1))), jan16)"
    by (simp add: sink_and_date_def demo_rotated_def)
  moreover have "run 0 [Watcher, Watcher, Watcher, Watcher, Watcher, Watcher, Watcher, Emit 7]
        (pass_start demo_running) =
     Some \<lparr>shared =
             demo_running\<lparr>ticks := 5, dirs := [''/var/log/app/'', ''/var/log/app/''],
               open_files := [log_file ''/var/log/app/2024-01-15.txt'' 0,
                              log_file ''/var/log/app/2024-01-16.txt'' 1],
               heap := [\<lparr>slogLogger =
                           Some (slog_New (json_handler
                             (log_file ''/var/log/app/2024-01-16.txt'' 1))),
                         logFile = None, logsDict = ''/var/log/app/'', modL = ''prod'',
                         LoggerType = ''request'', today = jan15\<rparr>]\<rparr>,
           wlocked = False, rlocks = 0, wpc = W_lock2,
           emits = [(7, slog_New (json_handler (log_file ''/var/log/app/2024-01-16.txt'' 1)),
                     jan15)],
           crashed = None\<rparr>"
    by (simp add: pass_start_def exec_def watcher_step_def emit_step_def shouldRotate_def
        time_Now_def prodHandler_eq setLogger_def demo_running_def demo_start_def
        DateOnly_jan16)
  ultimately show ?thesis
    using demo_rotation by simp
qed


text \<open>
  Claim C4, as the code has it. Take any schedule of one rotation pass for the logger
  \<open>ll\<close> and of any number of emits, started in a state \<open>w\<close>, and the state \<open>c\<close> it
  reaches. The write lock is held exactly while the goroutine is between a \<^verbatim>\<open>Lock\<close>
  and its \<^verbatim>\<open>Unlock\<close>. Every record emitted so far found the instance with the sink
  and date of \<open>w\<close>, or with the current sink and the date of \<open>w\<close>, or with the current
  sink and date. Any further step leaves sink and date alone, or is a statement of the
  rotation goroutine taken with the write lock held before and after it, and then it
  changes at most one of the two. And whenever the pass rotates, the schedule shown above
  for \<open>demo_running\<close> exists: after seven statements no lock is held, and an emit at
  that point goes through the new sink while the old date is still stored.
\<close>

theorem rotation_two_write_sections:
  assumes "ll < length (heap w)" and "run ll sched (pass_start w) = Some c"
  shows "(wlocked c \<longleftrightarrow> in_write_section (wpc c))
    \<and> (\<forall>(g, s, d) \<in> set (emits c).
          (Some s, d) = sink_and_date ll w
          \<or> (Some s, d) = (slogLogger (heap (shared c) ! ll), today (heap w ! ll))
          \<or> (Some s, d) = sink_and_date ll (shared c))
    \<and> (\<forall>a c'. exec ll a c = Some c' \<longrightarrow>
          sink_and_date ll (shared c') = sink_and_date ll (shared c)
          \<or> (a = Watcher \<and> wlocked c \<and> wlocked c'
              \<and> (slogLogger (heap (shared c') ! ll) = slogLogger (heap (shared c) ! ll)
                  \<or> today (heap (shared c') ! ll) = today (heap (shared c) ! ll))))
    \<and> (\<forall>w' g. day (today (heap w ! ll)) \<noteq> day (clock w (ticks w))
               \<and> watcher_iter ll w = Inr w' \<longrightarrow>
          (\<exists>c2 s. run ll [Watcher, Watcher, Watcher, Watcher, Watcher, Watcher, Watcher, Emit g]
                      (pass_start w) = Some c2
             \<and> \<not> wlocked c2 \<and> rlocks c2 = 0
             \<and> slogLogger (heap w' ! ll) = Some s
             \<and> emits c2 = [(g, s, today (heap w ! ll))]))"
proof -
  have inv: "pass_inv ll w c"
    by (rule run_inv [OF pass_inv_start [OF assms(1)] assms(2)])
  then have 1: "wlocked c \<longleftrightarrow> in_write_section (wpc c)"
    by (simp add: pass_inv_def)
  from inv have e: "\<forall>e \<in> set (emits c). ran_against ll w (shared c) (snd e)"
    by (simp add: pass_inv_def)
  have 2: "\<forall>(g, s, d) \<in> set (emits c).
          (Some s, d) = sink_and_date ll w
          \<or> (Some s, d) = (slogLogger (heap (shared c) ! ll), today (heap w ! ll))
          \<or> (Some s, d) = sink_and_date ll (shared c)"
  proof (rule ballI)
    fix x assume "x \<in> set (emits c)"
    with e have "ran_against ll w (shared c) (snd x)" by blast
    then show "case x of (g, s, d) \<Rightarrow>
          (Some s, d) = sink_and_date ll w
          \<or> (Some s, d) = (slogLogger (heap (shared c) ! ll), today (heap w ! ll))
          \<or> (Some s, d) = sink_and_date ll (shared c)"
      by (cases x) (simp add: ran_against_def)
  qed
  have 3: "\<forall>a c'. exec ll a c = Some c' \<longrightarrow>
          sink_and_date ll (shared c') = sink_and_date ll (shared c)
          \<or> (a = Watcher \<and> wlocked c \<and> wlocked c'
              \<and> (slogLogger (heap (shared c') ! ll) = slogLogger (heap (shared c) ! ll)
                  \<or> today (heap (shared c') ! ll) = today (heap (shared c) ! ll)))"
    using exec_fields [OF inv] by blast
  have 4: "\<exists>c2 s. run ll [Watcher, Watcher, Watcher, Watcher, Watcher, Watcher, Watcher, Emit g]
                      (pass_start w) = Some c2
             \<and> \<not> wlocked c2 \<and> rlocks c2 = 0
             \<and> slogLogger (heap w' ! ll) = Some s
             \<and> emits c2 = [(g, s, today (heap w ! ll))]"
    if d: "day (today (heap w ! ll)) \<noteq> day (clock w (ticks w))"
      and r: "watcher_iter ll w = Inr w'" for w' g
  proof -
    let ?gap = "\<lparr>shared = w\<lparr>ticks := ticks w + 2, dirs := dirs w', open_files := open_files w',
                heap := (heap w)[ll := (heap w ! ll)\<lparr>slogLogger := slogLogger (heap w' ! ll)\<rparr>]\<rparr>,
           wlocked = False, rlocks = 0, wpc = W_lock2, emits = [], crashed = None\<rparr>"
    have gap: "run ll [Watcher, Watcher, Watcher, Watcher, Watcher, Watcher, Watcher]
        (pass_start w) = Some ?gap"
      by (rule run_to_gap [OF d r assms(1)])
    from assms(1) obtain s where s: "slogLogger (heap w' ! ll) = Some s"
      by (simp add: watcher_iter_rotated [OF d r])
    let ?c2 = "?gap\<lparr>shared := (shared ?gap)\<lparr>ticks := ticks w + 3\<rparr>,
                 emits := [(g, s, today (heap w ! ll))]\<rparr>"
    from assms(1) s have "exec ll (Emit g) ?gap = Some ?c2"
      by (simp add: exec_def emit_step_def time_Now_def)
    then have step: "run ll [Emit g] ?gap = Some ?c2"
      by simp
    have "run ll ([Watcher, Watcher, Watcher, Watcher, Watcher, Watcher, Watcher]
        @ [Emit g]) (pass_start w) = Some ?c2"
      by (simp only: run_append gap option.case step)
    then have "run ll [Watcher, Watcher, Watcher, Watcher, Watcher, Watcher, Watcher, Emit g]
        (pass_start w) = Some ?c2"
      by (simp only: append_Cons append_Nil)
    moreover have "\<not> wlocked ?c2" "rlocks ?c2 = 0" "emits ?c2 = [(g, s, today (heap w ! ll))]"
      by simp_all
    ultimately show ?thesis using s by blast
  qed
  from 1 2 3 4 show ?thesis by blast
qed

lemma demo_schedule:
  "run 0 [Emit 1, Watcher, Watcher, Watcher, Watcher, Watcher, Watcher, Watcher, Emit 2,
          Watcher, Watcher, Watcher, Emit 3] (pass_start demo_running) =
     Some \<lparr>shared = demo_rotated\<lparr>ticks := 8\<rparr>, wlocked = False, rlocks = 0, wpc = W_sleep,
           emits =
             [(1, slog_New (json_handler (log_file ''/var/log/app/2024-01-15.txt'' 0)), jan15),
              (2, slog_New (json_handler (log_file ''/var/log/app/2024-01-16.txt'' 1)), jan15),
              (3, slog_New (json_handler (log_file ''/var/log/app/2024-01-16.txt'' 1)), jan16)],
           crashed = None\<rparr>"
  by (simp add: pass_start_def exec_def watcher_step_def emit_step_def shouldRotate_def
      time_Now_def prodHandler_eq setLogger_def set_today_def demo_running_def
      demo_rotated_def demo_start_def DateOnly_jan16)

theorem rotation_two_write_sections_witness:
  "0 < length (heap demo_running)
   \<and> run 0 [Emit 1, Watcher, Watcher, Watcher, Watcher, Watcher, Watcher, Watcher, Emit 2,
          Watcher, Watcher, Watcher, Emit 3] (pass_start demo_running) =
     Some \<lparr>shared = demo_rotated\<lparr>ticks := 8\<rparr>, wlocked = False, rlocks = 0, wpc = W_sleep,
           emits =
             [(1, slog_New (json_handler (log_file ''/var/log/app/2024-01-15.txt'' 0)), jan15),
              (2, slog_New (json_handler (log_file ''/var/log/app/2024-01-16.txt'' 1)), jan15),
              (3, slog_New (json_handler (log_file ''/var/log/app/2024-01-16.txt'' 1)), jan16)],
           crashed = None\<rparr>
   \<and> sink_and_date 0 demo_running =
       (Some (slog_New (json_handler (log_file ''/var/log/app/2024-01-15.txt'' 0))), jan15)
   \<and> sink_and_date 0 (demo_rotated\<lparr>ticks := 8\<rparr>) =
       (Some (slog_New (json_handler (log_file ''/var/log/app/2024-01-16.txt'' 1))), jan16)
   \<and> in_write_section W_sleep = False"
proof -
  have h: "0 < length (heap demo_running)"
    by (simp add: demo_running_def)
  have a: "sink_and_date 0 demo_running =
       (Some (slog_New (json_handler (log_file ''/var/log/app/2024-01-15.txt'' 0))), jan15)"
    by (simp add: sink_and_date_def demo_running_def)
  have b: "sink_and_date 0 (demo_rotated\<lparr>ticks := 8\<rparr>) =
       (Some (slog_New (json_handler (log_file ''/var/log/app/2024-01-16.txt'' 1))), jan16)"
    by (simp add: sink_and_date_def demo_rotated_def)
  from rotation_two_write_sections [OF h demo_schedule] have "wlocked \<lparr>shared = demo_rotated\<lparr>ticks := 8\<rparr>, wlocked = False, rlocks = 0, wpc = W_sleep,
           emits =
             [(1, slog_New (json_handler (log_file ''/var/log/app/2024-01-15.txt'' 0)), jan15),
              (2, slog_New (json_handler (log_file ''/var/log/app/2024-01-16.txt'' 1)), jan15),
              (3, slog_New (json_handler (log_file ''/var/log/app/2024-01-16.txt'' 1)), jan16)],
           crashed = None\<rparr> \<longleftrightarrow> in_write_section W_sleep"
    by simp
  then have "in_write_section W_sleep = False"
    by simp
  with h demo_schedule a b show ?thesis
    by (simp only: simp_thms)
qed

end
